theory Spec2Isabelle
  imports Complex_Main "HOL-Library.Multiset"
begin

section \<open>JavaScript numbers\<close>

text \<open>
  A finite JavaScript \<^verbatim>\<open>number\<close> is modelled by an exact \<^typ>\<open>real\<close>: the rounding
  of the doubles is not modelled. The three non-finite values are written out where the
  code can produce them: the sentinels \<^verbatim>\<open>Infinity\<close> and \<^verbatim>\<open>-Infinity\<close> that start a
  minimum or maximum search, the result of a division whose divisor is not guarded against
  zero, and the overflow of the products and sums of weights (the average colour of a box
  and the k-means clustering).
\<close>

datatype 'a jsnum = NaN | NegInf | Fin 'a | PosInf

text \<open>\<^verbatim>\<open>x < y\<close>: false as soon as one side is NaN.\<close>

fun js_lt :: "'a::linorder jsnum \<Rightarrow> 'a jsnum \<Rightarrow> bool" where
  "js_lt NaN _ = False"
| "js_lt _ NaN = False"
| "js_lt NegInf NegInf = False"
| "js_lt NegInf _ = True"
| "js_lt (Fin x) (Fin y) = (x < y)"
| "js_lt (Fin x) PosInf = True"
| "js_lt (Fin x) NegInf = False"
| "js_lt PosInf _ = False"

definition js_gt :: "'a::linorder jsnum \<Rightarrow> 'a jsnum \<Rightarrow> bool" where
  "js_gt x y = js_lt y x"

text \<open>\<^verbatim>\<open>x >= y\<close>.\<close>

definition js_ge :: "'a::linorder jsnum \<Rightarrow> 'a jsnum \<Rightarrow> bool" where
  "js_ge x y = (x \<noteq> NaN \<and> y \<noteq> NaN \<and> \<not> js_lt x y)"

text \<open>\<^verbatim>\<open>x === y\<close> on numbers: NaN equals nothing.\<close>

definition js_eq :: "'a jsnum \<Rightarrow> 'a jsnum \<Rightarrow> bool" where
  "js_eq x y = (x \<noteq> NaN \<and> x = y)"

fun js_neg :: "'a::uminus jsnum \<Rightarrow> 'a jsnum" where
  "js_neg NaN = NaN"
| "js_neg NegInf = PosInf"
| "js_neg (Fin x) = Fin (- x)"
| "js_neg PosInf = NegInf"

fun js_add :: "'a::plus jsnum \<Rightarrow> 'a jsnum \<Rightarrow> 'a jsnum" where
  "js_add NaN _ = NaN"
| "js_add _ NaN = NaN"
| "js_add (Fin x) (Fin y) = Fin (x + y)"
| "js_add PosInf NegInf = NaN"
| "js_add NegInf PosInf = NaN"
| "js_add PosInf _ = PosInf"
| "js_add NegInf _ = NegInf"
| "js_add (Fin x) PosInf = PosInf"
| "js_add (Fin x) NegInf = NegInf"

definition js_sub :: "'a::{plus,uminus} jsnum \<Rightarrow> 'a jsnum \<Rightarrow> 'a jsnum" where
  "js_sub x y = js_add x (js_neg y)"

text \<open>\<^verbatim>\<open>Math.max(x, y)\<close> and \<^verbatim>\<open>Math.min(x, y)\<close>: NaN as soon as one argument is NaN.\<close>

definition js_max :: "'a::linorder jsnum \<Rightarrow> 'a jsnum \<Rightarrow> 'a jsnum" where
  "js_max x y = (if x = NaN \<or> y = NaN then NaN else if js_lt x y then y else x)"

definition js_min :: "'a::linorder jsnum \<Rightarrow> 'a jsnum \<Rightarrow> 'a jsnum" where
  "js_min x y = (if x = NaN \<or> y = NaN then NaN else if js_lt y x then y else x)"

text \<open>
  \<^verbatim>\<open>x / y\<close> for two finite numbers. A zero divisor gives NaN for \<^verbatim>\<open>0 / 0\<close> and an
  infinity with the sign of the dividend otherwise (the divisors of this program are sums
  that start at \<^verbatim>\<open>+0\<close>, so they are never \<^verbatim>\<open>-0\<close>).
\<close>

definition js_div :: "real \<Rightarrow> real \<Rightarrow> real jsnum" where
  "js_div x y =
     (if y = 0 then (if x = 0 then NaN else if 0 < x then PosInf else NegInf)
      else Fin (x / y))"

text \<open>\<^verbatim>\<open>Math.round\<close>: the nearest integer, a half rounded towards \<^verbatim>\<open>+Infinity\<close>.\<close>

definition round_half_up :: "real \<Rightarrow> real" where
  "round_half_up x = of_int \<lfloor>x + 1 / 2\<rfloor>"

fun Math_round :: "real jsnum \<Rightarrow> real jsnum" where
  "Math_round (Fin x) = Fin (round_half_up x)"
| "Math_round x = x"

subsection \<open>Arithmetic on numbers that may be NaN or infinite\<close>

fun js_mul :: "real jsnum \<Rightarrow> real jsnum \<Rightarrow> real jsnum" where
  "js_mul NaN _ = NaN"
| "js_mul _ NaN = NaN"
| "js_mul (Fin x) (Fin y) = Fin (x * y)"
| "js_mul PosInf PosInf = PosInf"
| "js_mul PosInf NegInf = NegInf"
| "js_mul NegInf PosInf = NegInf"
| "js_mul NegInf NegInf = PosInf"
| "js_mul PosInf (Fin y) = (if y = 0 then NaN else if 0 < y then PosInf else NegInf)"
| "js_mul NegInf (Fin y) = (if y = 0 then NaN else if 0 < y then NegInf else PosInf)"
| "js_mul (Fin x) PosInf = (if x = 0 then NaN else if 0 < x then PosInf else NegInf)"
| "js_mul (Fin x) NegInf = (if x = 0 then NaN else if 0 < x then NegInf else PosInf)"

text \<open>
  \<^verbatim>\<open>x / y\<close> in general. Where it is used the divisor has been compared with zero
  before or is a sum that starts at \<^verbatim>\<open>+0\<close>, so the sign of a zero divisor does not matter.
\<close>

fun js_divide :: "real jsnum \<Rightarrow> real jsnum \<Rightarrow> real jsnum" where
  "js_divide NaN _ = NaN"
| "js_divide _ NaN = NaN"
| "js_divide (Fin x) (Fin y) = js_div x y"
| "js_divide (Fin x) _ = Fin 0"
| "js_divide PosInf (Fin y) = (if 0 \<le> y then PosInf else NegInf)"
| "js_divide NegInf (Fin y) = (if 0 \<le> y then NegInf else PosInf)"
| "js_divide _ _ = NaN"

fun Math_sqrt :: "real jsnum \<Rightarrow> real jsnum" where
  "Math_sqrt (Fin x) = (if x < 0 then NaN else Fin (sqrt x))"
| "Math_sqrt PosInf = PosInf"
| "Math_sqrt _ = NaN"

subsection \<open>Overflow\<close>

text \<open>
  The largest finite double is \<open>2 ^ 1024 - 2 ^ 971\<close>. An operation on doubles whose exact
  result is at least \<open>2 ^ 1024 - 2 ^ 970\<close> in magnitude (half-way from the largest double
  to \<open>2 ^ 1024\<close>) gives an infinity (IEEE 754, rounding to nearest, ties to even); a
  smaller exact result stands for its rounding.
\<close>

definition overflowBound :: real where
  "overflowBound = 2 ^ 1024 - 2 ^ 970"

lemma overflowBound_numeral [code]:
  "overflowBound = 179769313486231580793728971405303415079934132710037826936173778980444968292764750946649017977587207096330286416692887910946555547851940402630657488671505820681908902000708383676273854845817711531764475730270069855571366959622842914819860834936475292719074168444365510704342711559699508093042880177904174497792"
  by (simp add: overflowBound_def)

definition fl :: "real \<Rightarrow> real jsnum" where
  "fl x = (if overflowBound \<le> x then PosInf else if x \<le> - overflowBound then NegInf else Fin x)"

fun overflow :: "real jsnum \<Rightarrow> real jsnum" where
  "overflow (Fin x) = fl x"
| "overflow x = x"

text \<open>\<^verbatim>\<open>x + y\<close>, \<^verbatim>\<open>x - y\<close>, \<^verbatim>\<open>x * y\<close> and \<^verbatim>\<open>x / y\<close> with their overflow.\<close>

definition dbl_add :: "real jsnum \<Rightarrow> real jsnum \<Rightarrow> real jsnum" where
  "dbl_add x y = overflow (js_add x y)"

definition dbl_sub :: "real jsnum \<Rightarrow> real jsnum \<Rightarrow> real jsnum" where
  "dbl_sub x y = overflow (js_sub x y)"

definition dbl_mul :: "real jsnum \<Rightarrow> real jsnum \<Rightarrow> real jsnum" where
  "dbl_mul x y = overflow (js_mul x y)"

definition dbl_div :: "real jsnum \<Rightarrow> real jsnum \<Rightarrow> real jsnum" where
  "dbl_div x y = overflow (js_divide x y)"

text \<open>\<^verbatim>\<open>x <= y\<close>.\<close>

definition js_le :: "'a::linorder jsnum \<Rightarrow> 'a jsnum \<Rightarrow> bool" where
  "js_le x y = js_ge y x"

section \<open>Colours and weighted points\<close>

text \<open>
  The interfaces \<^verbatim>\<open>RGB\<close> (alias \<^verbatim>\<open>Color\<close>), \<^verbatim>\<open>Centroid\<close> and \<^verbatim>\<open>DataPoint\<close> have
  the fields \<^verbatim>\<open>r\<close>, \<^verbatim>\<open>g\<close>, \<^verbatim>\<open>b\<close>, here \<open>chR\<close>, \<open>chG\<close>, \<open>chB\<close>; a \<^verbatim>\<open>DataPoint\<close>
  adds \<^verbatim>\<open>count\<close>. The numbers of a data point are finite. A colour whose channels come
  out of an unguarded division or of sums that can overflow may be NaN or infinite: the
  colours of a palette and the centroids of the clustering.
\<close>

record 'a rgb =
  chR :: 'a
  chG :: 'a
  chB :: 'a

type_synonym Color = "real rgb"

type_synonym NumColor = "real jsnum rgb"
type_synonym Centroid = "real jsnum rgb"

record DataPoint = "real rgb" +
  count :: real

definition fin_color :: "Color \<Rightarrow> NumColor" where
  "fin_color c = \<lparr>chR = Fin (chR c), chG = Fin (chG c), chB = Fin (chB c)\<rparr>"

section \<open>Median cut quantisation\<close>

record ColorBox =
  data :: "DataPoint list"
  rMin :: "real jsnum"
  rMax :: "real jsnum"
  gMin :: "real jsnum"
  gMax :: "real jsnum"
  bMin :: "real jsnum"
  bMax :: "real jsnum"

text \<open>One iteration of the loop of \<^verbatim>\<open>createColorBox\<close> over the point \<open>p\<close>.\<close>

definition boxStep :: "DataPoint \<Rightarrow> ColorBox \<Rightarrow> ColorBox" where
  "boxStep p bx = bx
     \<lparr> rMin := (if js_lt (Fin (chR p)) (rMin bx) then Fin (chR p) else rMin bx),
       rMax := (if js_gt (Fin (chR p)) (rMax bx) then Fin (chR p) else rMax bx),
       gMin := (if js_lt (Fin (chG p)) (gMin bx) then Fin (chG p) else gMin bx),
       gMax := (if js_gt (Fin (chG p)) (gMax bx) then Fin (chG p) else gMax bx),
       bMin := (if js_lt (Fin (chB p)) (bMin bx) then Fin (chB p) else bMin bx),
       bMax := (if js_gt (Fin (chB p)) (bMax bx) then Fin (chB p) else bMax bx) \<rparr>"

definition createColorBox :: "DataPoint list \<Rightarrow> ColorBox" where
  "createColorBox ds =
     fold boxStep ds
       \<lparr> data = ds, rMin = PosInf, rMax = NegInf, gMin = PosInf, gMax = NegInf,
         bMin = PosInf, bMax = NegInf \<rparr>"

datatype channel = ChannelR | ChannelG | ChannelB

fun channelOf :: "channel \<Rightarrow> DataPoint \<Rightarrow> real" where
  "channelOf ChannelR p = chR p"
| "channelOf ChannelG p = chG p"
| "channelOf ChannelB p = chB p"

text \<open>
  The loop of \<^verbatim>\<open>splitBox\<close> that looks for the weighted median: the first index at which
  the cumulative count reaches half of the total; \<^verbatim>\<open>medianIndex\<close> keeps its initial value
  0 when the loop ends without a \<^verbatim>\<open>break\<close>.
\<close>

fun medianLoop :: "DataPoint list \<Rightarrow> nat \<Rightarrow> real \<Rightarrow> real \<Rightarrow> nat" where
  "medianLoop [] i cumulative half = 0"
| "medianLoop (p # ps) i cumulative half =
     (if cumulative + count p \<ge> half then i
      else medianLoop ps (i + 1) (cumulative + count p) half)"

definition longestChannel :: "ColorBox \<Rightarrow> channel" where
  "longestChannel box =
     (let rRange = js_sub (rMax box) (rMin box);
          gRange = js_sub (gMax box) (gMin box);
          bRange = js_sub (bMax box) (bMin box)
      in if js_ge gRange rRange \<and> js_ge gRange bRange then ChannelG
         else if js_ge bRange rRange \<and> js_ge bRange gRange then ChannelB
         else ChannelR)"

text \<open>
  \<^verbatim>\<open>Array.prototype.sort\<close> is stable (ECMAScript 2019), and so is \<^const>\<open>sort_key\<close>; the
  comparator \<^verbatim>\<open>a[channel] - b[channel]\<close> orders by the key.
\<close>

definition splitBox :: "ColorBox \<Rightarrow> ColorBox \<times> ColorBox" where
  "splitBox box =
     (let sortedData = sort_key (channelOf (longestChannel box)) (data box);
          totalCount = foldl (\<lambda>s p. s + count p) 0 sortedData;
          found = medianLoop sortedData 0 0 (totalCount / 2);
          medianIndex = (if found = 0 then 1 else found)
      in (createColorBox (take medianIndex sortedData),
          createColorBox (drop medianIndex sortedData)))"

text \<open>The sums of \<^verbatim>\<open>computeAverageColor\<close>: \<open>(sumR, sumG, sumB, total)\<close>, the last one
  written \<open>total'\<close>.\<close>

definition averageSums ::
  "DataPoint list \<Rightarrow> real jsnum \<times> real jsnum \<times> real jsnum \<times> real jsnum" where
  "averageSums ds =
     fold (\<lambda>p (sumR, sumG, sumB, total').
             (dbl_add sumR (dbl_mul (Fin (chR p)) (Fin (count p))),
              dbl_add sumG (dbl_mul (Fin (chG p)) (Fin (count p))),
              dbl_add sumB (dbl_mul (Fin (chB p)) (Fin (count p))),
              dbl_add total' (Fin (count p))))
       ds (Fin 0, Fin 0, Fin 0, Fin 0)"

definition computeAverageColor :: "DataPoint list \<Rightarrow> NumColor" where
  "computeAverageColor ds =
     (case averageSums ds of (sumR, sumG, sumB, total') \<Rightarrow>
        \<lparr> chR = Math_round (dbl_div sumR total'),
          chG = Math_round (dbl_div sumG total'),
          chB = Math_round (dbl_div sumB total') \<rparr>)"

definition boxRange :: "ColorBox \<Rightarrow> real jsnum" where
  "boxRange box =
     js_max (js_max (js_sub (rMax box) (rMin box)) (js_sub (gMax box) (gMin box)))
       (js_sub (bMax box) (bMin box))"

text \<open>
  The inner loop of \<^verbatim>\<open>medianCutQuantize\<close>: the index of the first box of largest range,
  \<open>None\<close> for \<^verbatim>\<open>boxToSplitIndex === -1\<close>.
\<close>

fun selectBoxLoop :: "ColorBox list \<Rightarrow> nat \<Rightarrow> nat option \<Rightarrow> real jsnum \<Rightarrow> nat option" where
  "selectBoxLoop [] i boxToSplitIndex maxRange = boxToSplitIndex"
| "selectBoxLoop (box # rest) i boxToSplitIndex maxRange =
     (if js_gt (boxRange box) maxRange
      then selectBoxLoop rest (i + 1) (Some i) (boxRange box)
      else selectBoxLoop rest (i + 1) boxToSplitIndex maxRange)"

definition selectBox :: "ColorBox list \<Rightarrow> nat option" where
  "selectBox boxes = selectBoxLoop boxes 0 None NegInf"

text \<open>\<^verbatim>\<open>boxes.splice(i, 1, box1, box2)\<close>.\<close>

definition splice2 :: "nat \<Rightarrow> 'a \<Rightarrow> 'a \<Rightarrow> 'a list \<Rightarrow> 'a list" where
  "splice2 i x y xs = take i xs @ [x, y] @ drop (i + 1) xs"

text \<open>
  What one pass through the body of the \<^verbatim>\<open>while\<close> loop decides: \<open>None\<close> for either
  \<^verbatim>\<open>break\<close>, otherwise the index of the box handed to \<^verbatim>\<open>splitBox\<close>.
\<close>

definition boxToSplit :: "ColorBox list \<Rightarrow> nat option" where
  "boxToSplit boxes =
     (case selectBox boxes of
        None \<Rightarrow> None
      | Some i \<Rightarrow> if length (data (boxes ! i)) \<le> 1 then None else Some i)"

lemma boxToSplit_less: "boxToSplit boxes = Some i \<Longrightarrow> i < length boxes"
proof -
  have "selectBoxLoop bs j best m = Some i \<Longrightarrow> (\<forall>k. best = Some k \<longrightarrow> k < j)
          \<Longrightarrow> i < j + length bs" for bs j best m
  proof (induction bs j best m rule: selectBoxLoop.induct)
    case (1 i boxToSplitIndex maxRange)
    then show ?case by simp
  next
    case (2 box rest j boxToSplitIndex maxRange)
    then show ?case by (auto split: if_splits simp: less_Suc_eq)
  qed
  from this [of boxes 0 None NegInf] show "boxToSplit boxes = Some i \<Longrightarrow> i < length boxes"
    by (auto simp: boxToSplit_def selectBox_def split: option.splits if_splits)
qed

text \<open>
  The \<^verbatim>\<open>while (boxes.length < paletteSize)\<close> loop. It returns the final box list and,
  for the record, the boxes that were handed to \<^verbatim>\<open>splitBox\<close>, in order. The requested
  size is a count: a natural number.
\<close>

function medianCutLoop :: "ColorBox list \<Rightarrow> nat \<Rightarrow> ColorBox list \<Rightarrow> ColorBox list \<times> ColorBox list" where
  "medianCutLoop boxes paletteSize splitLog =
     (if length boxes < paletteSize then
        (case boxToSplit boxes of
           None \<Rightarrow> (boxes, splitLog)
         | Some i \<Rightarrow>
             (case splitBox (boxes ! i) of (box1, box2) \<Rightarrow>
                medianCutLoop (splice2 i box1 box2 boxes) paletteSize (splitLog @ [boxes ! i])))
      else (boxes, splitLog))"
  by pat_completeness auto
termination
proof (relation "measure (\<lambda>(boxes, paletteSize, splitLog). paletteSize - length boxes)")
  show "wf (measure (\<lambda>(boxes, paletteSize, splitLog). paletteSize - length boxes))"
    by simp
next
  fix boxes :: "ColorBox list" and paletteSize :: nat and splitLog :: "ColorBox list"
    and i x y box1 box2
  assume lt: "length boxes < paletteSize" and sel: "boxToSplit boxes = Some i"
  from boxToSplit_less [OF sel] have "length (splice2 i box1 box2 boxes) = length boxes + 1"
    by (simp add: splice2_def)
  with lt show "((splice2 i box1 box2 boxes, paletteSize, splitLog @ [boxes ! i]),
                 (boxes, paletteSize, splitLog))
      \<in> measure (\<lambda>(boxes, paletteSize, splitLog). paletteSize - length boxes)"
    by simp
qed

declare medianCutLoop.simps [simp del]

definition medianCutQuantize :: "DataPoint list \<Rightarrow> nat \<Rightarrow> NumColor list" where
  "medianCutQuantize ds paletteSize =
     (if length ds = 0 then []
      else map (\<lambda>box. computeAverageColor (data box))
             (fst (medianCutLoop [createColorBox ds] paletteSize [])))"

text \<open>The boxes that a run of \<^verbatim>\<open>medianCutQuantize\<close> hands to \<^verbatim>\<open>splitBox\<close>.\<close>

definition medianCutSplits :: "DataPoint list \<Rightarrow> nat \<Rightarrow> ColorBox list" where
  "medianCutSplits ds paletteSize =
     (if length ds = 0 then [] else snd (medianCutLoop [createColorBox ds] paletteSize []))"

section \<open>Errors\<close>

text \<open>
  \<open>ContextUnavailable\<close>: \<^verbatim>\<open>throw new Error('Failed to get canvas context')\<close>.
  \<open>TypeError\<close>: a property read on \<^verbatim>\<open>undefined\<close>.
\<close>

datatype error = ContextUnavailable | TypeError

section \<open>Colour keys of the frequency map\<close>

text \<open>
  The frequency map is a \<^verbatim>\<open>Map<string, number>\<close>, which keeps its entries in insertion
  order: an association list. Its keys are written by the template literal
  \<^verbatim>\<open>`${r},${g},${b}`\<close> and read back by \<^verbatim>\<open>key.split(',')\<close> and \<^verbatim>\<open>parseInt(part, 10)\<close>.
  The characters of a string are code units below 256.
\<close>

type_synonym ColorCounts = "(string \<times> real) list"

definition digitChar :: "nat \<Rightarrow> char" where
  "digitChar d = ''0123456789'' ! d"

fun showNat :: "nat \<Rightarrow> string" where
  "showNat n = (if n < 10 then [digitChar n] else showNat (n div 10) @ [digitChar (n mod 10)])"

declare showNat.simps [simp del]

text \<open>A channel read beyond the end of the pixel buffer is \<^verbatim>\<open>undefined\<close>.\<close>

definition showChannel :: "nat option \<Rightarrow> string" where
  "showChannel v = (case v of None \<Rightarrow> ''undefined'' | Some n \<Rightarrow> showNat n)"

definition colorKey :: "nat option \<Rightarrow> nat option \<Rightarrow> nat option \<Rightarrow> string" where
  "colorKey rv gv bv = showChannel rv @ '','' @ showChannel gv @ '','' @ showChannel bv"

fun split_comma :: "string \<Rightarrow> string list" where
  "split_comma [] = [[]]"
| "split_comma (c # cs) =
     (if c = CHR '','' then [] # split_comma cs
      else (case split_comma cs of [] \<Rightarrow> [[c]] | p # ps \<Rightarrow> (c # p) # ps))"

definition isWhiteSpace :: "char \<Rightarrow> bool" where
  "isWhiteSpace c =
     (c \<in> {CHR 0x09, CHR 0x0A, CHR 0x0B, CHR 0x0C, CHR 0x0D, CHR '' '', CHR 0xA0})"

definition isDigit :: "char \<Rightarrow> bool" where
  "isDigit c = (48 \<le> (of_char c :: nat) \<and> (of_char c :: nat) \<le> 57)"

definition digitValue :: "char \<Rightarrow> nat" where
  "digitValue c = of_char c - 48"

text \<open>
  \<^verbatim>\<open>parseInt(s, 10)\<close>: leading white space is skipped, one sign is read, then the longest
  run of decimal digits; \<open>None\<close> is NaN (no digit).
\<close>

definition parseInt :: "string \<Rightarrow> int option" where
  "parseInt s =
     (let t = dropWhile isWhiteSpace s;
          negative = (case t of [] \<Rightarrow> False | c # _ \<Rightarrow> c = CHR ''-'');
          u = (case t of [] \<Rightarrow> [] | c # cs \<Rightarrow> if c = CHR ''+'' \<or> c = CHR ''-'' then cs else t);
          z = takeWhile isDigit u
      in if z = [] then None
         else Some ((if negative then - 1 else 1) *
                    int (foldl (\<lambda>acc c. acc * 10 + digitValue c) 0 z)))"

text \<open>\<^verbatim>\<open>colorCounts.set(key, (colorCounts.get(key) || 0) + 1)\<close>.\<close>

fun mapGet :: "('k \<times> 'v) list \<Rightarrow> 'k \<Rightarrow> 'v option" where
  "mapGet [] key = None"
| "mapGet ((k, v) # rest) key = (if k = key then Some v else mapGet rest key)"

fun mapSet :: "('k \<times> 'v) list \<Rightarrow> 'k \<Rightarrow> 'v \<Rightarrow> ('k \<times> 'v) list" where
  "mapSet [] key v = [(key, v)]"
| "mapSet ((k, v') # rest) key v =
     (if k = key then (k, v) # rest else (k, v') # mapSet rest key v)"

definition countColor :: "string \<Rightarrow> ColorCounts \<Rightarrow> ColorCounts" where
  "countColor key m = mapSet m key ((case mapGet m key of None \<Rightarrow> 0 | Some v \<Rightarrow> v) + 1)"

section \<open>Sorting with a comparator\<close>

text \<open>
  \<^verbatim>\<open>Array.prototype.sort\<close> with a comparator, as a stable insertion sort: \<open>x\<close> goes
  behind \<open>y\<close> when \<^verbatim>\<open>comparator(x, y) > 0\<close> (a NaN result counts as 0). On a consistent
  comparator every stable sort gives this result.
\<close>

fun insertSorted :: "('a \<Rightarrow> 'a \<Rightarrow> real jsnum) \<Rightarrow> 'a \<Rightarrow> 'a list \<Rightarrow> 'a list" where
  "insertSorted cmp x [] = [x]"
| "insertSorted cmp x (y # ys) =
     (if js_gt (cmp x y) (Fin 0) then y # insertSorted cmp x ys else x # y # ys)"

definition sortWith :: "('a \<Rightarrow> 'a \<Rightarrow> real jsnum) \<Rightarrow> 'a list \<Rightarrow> 'a list" where
  "sortWith cmp xs = foldr (insertSorted cmp) xs []"

section \<open>Weighted k-means (dominant colours)\<close>

definition euclideanDistanceSquared :: "Centroid \<Rightarrow> Centroid \<Rightarrow> real jsnum" where
  "euclideanDistanceSquared c1 c2 =
     (let dr = dbl_sub (chR c1) (chR c2);
          dg = dbl_sub (chG c1) (chG c2);
          db = dbl_sub (chB c1) (chB c2)
      in dbl_add (dbl_add (dbl_mul dr dr) (dbl_mul dg dg)) (dbl_mul db db))"

text \<open>The object literal \<^verbatim>\<open>{ r: d.r, g: d.g, b: d.b }\<close>.\<close>

definition rgbOf :: "(real, 'x) rgb_scheme \<Rightarrow> real rgb" where
  "rgbOf d = \<lparr>chR = chR d, chG = chG d, chB = chB d\<rparr>"

text \<open>
  The colour of a data point among the colours whose channels may be NaN or infinite:
  the object literal above, and a data point passed where a \<^verbatim>\<open>Centroid\<close> is expected
  (structural typing).
\<close>

definition pointColor :: "DataPoint \<Rightarrow> NumColor" where
  "pointColor d = fin_color (rgbOf d)"

text \<open>
  The two sampling loops of \<^verbatim>\<open>initializeCentroidsKMeansPP\<close>: the weight of each point
  in turn is subtracted from the random threshold, and the first point that brings it to
  zero or below is taken; \<open>None\<close> when the loop ends with nothing selected.
\<close>

fun pickLoop :: "('a \<times> real jsnum) list \<Rightarrow> real jsnum \<Rightarrow> 'a option" where
  "pickLoop [] rand = None"
| "pickLoop ((d, w) # rest) rand =
     (if js_le (dbl_sub rand w) (Fin 0) then Some d else pickLoop rest (dbl_sub rand w))"

text \<open>\<^verbatim>\<open>data[data.length - 1]\<close>: \<^verbatim>\<open>undefined\<close> on an empty array.\<close>

fun lastOpt :: "'a list \<Rightarrow> 'a option" where
  "lastOpt [] = None"
| "lastOpt [x] = Some x"
| "lastOpt (x # xs) = lastOpt xs"

definition pickOrLast :: "'a list \<Rightarrow> real jsnum list \<Rightarrow> real jsnum \<Rightarrow> 'a option" where
  "pickOrLast ds weights rand =
     (case pickLoop (zip ds weights) rand of Some d \<Rightarrow> Some d | None \<Rightarrow> lastOpt ds)"

text \<open>
  \<^verbatim>\<open>Math.min(...centroids.map(c => euclideanDistanceSquared(d, c)))\<close> over the centroid
  array, which holds its first element \<open>c0\<close> from before the loop on.
\<close>

definition nearestDistance :: "DataPoint \<Rightarrow> Centroid \<Rightarrow> Centroid list \<Rightarrow> real jsnum" where
  "nearestDistance d c0 cs =
     fold (\<lambda>c m. js_min m (euclideanDistanceSquared (pointColor d) c)) cs
       (euclideanDistanceSquared (pointColor d) c0)"

text \<open>
  The random source: \<^verbatim>\<open>Math.random()\<close> is the sequence \<open>rnd 0, rnd 1, ...\<close> of its
  successive results, each in [0, 1); the functions that draw from it take the index of
  the next draw and return the index after their last one.
\<close>

type_synonym random = "nat \<Rightarrow> real"

definition randomOk :: "random \<Rightarrow> bool" where
  "randomOk rnd = (\<forall>i. 0 \<le> rnd i \<and> rnd i < 1)"

text \<open>
  The loop \<^verbatim>\<open>while (centroids.length < k)\<close>, on the centroids \<open>c0 # cs\<close>. A missing
  \<^verbatim>\<open>selected\<close> (empty data) is the TypeError of \<^verbatim>\<open>selected!.r\<close>.
\<close>

function seedLoop ::
  "DataPoint list \<Rightarrow> nat \<Rightarrow> Centroid \<Rightarrow> Centroid list \<Rightarrow> random \<Rightarrow> nat
     \<Rightarrow> error + (Centroid list \<times> nat)" where
  "seedLoop ds k c0 cs rnd n =
     (if length (c0 # cs) < k then
        (let distances = map (\<lambda>d. dbl_mul (nearestDistance d c0 cs) (Fin (count d))) ds;
             sumDistances = foldl dbl_add (Fin 0) distances;
             rand = dbl_mul (Fin (rnd n)) sumDistances
         in case pickOrLast ds distances rand of
              None \<Rightarrow> Inl TypeError
            | Some selected \<Rightarrow> seedLoop ds k c0 (cs @ [pointColor selected]) rnd (n + 1))
      else Inr (c0 # cs, n))"
  by pat_completeness auto
termination
  by (relation "measure (\<lambda>(ds, k, c0, cs, rnd, n). k - length cs)") auto

declare seedLoop.simps [simp del]

definition initializeCentroidsKMeansPP ::
  "DataPoint list \<Rightarrow> nat \<Rightarrow> random \<Rightarrow> nat \<Rightarrow> error + (Centroid list \<times> nat)" where
  "initializeCentroidsKMeansPP ds k rnd n =
     (let totalWeight = foldl (\<lambda>s d. dbl_add s (Fin (count d))) (Fin 0) ds;
          randomWeight = dbl_mul (Fin (rnd n)) totalWeight
      in case pickOrLast ds (map (\<lambda>d. Fin (count d)) ds) randomWeight of
           None \<Rightarrow> Inl TypeError
         | Some firstCentroid \<Rightarrow> seedLoop ds k (pointColor firstCentroid) [] rnd (n + 1))"

record Sums =
  sumR :: "real jsnum"
  sumG :: "real jsnum"
  sumB :: "real jsnum"
  weight :: "real jsnum"

text \<open>The search for the nearest centroid: the first index of least squared distance.\<close>

fun nearestLoop :: "DataPoint \<Rightarrow> Centroid list \<Rightarrow> nat \<Rightarrow> nat \<Rightarrow> real jsnum \<Rightarrow> nat" where
  "nearestLoop d [] i bestIndex bestDistance = bestIndex"
| "nearestLoop d (c # cs) i bestIndex bestDistance =
     (if js_lt (euclideanDistanceSquared (pointColor d) c) bestDistance
      then nearestLoop d cs (i + 1) i (euclideanDistanceSquared (pointColor d) c)
      else nearestLoop d cs (i + 1) bestIndex bestDistance)"

definition addPoint :: "DataPoint \<Rightarrow> Sums \<Rightarrow> Sums" where
  "addPoint d s =
     \<lparr> sumR = dbl_add (sumR s) (dbl_mul (Fin (chR d)) (Fin (count d))),
       sumG = dbl_add (sumG s) (dbl_mul (Fin (chG d)) (Fin (count d))),
       sumB = dbl_add (sumB s) (dbl_mul (Fin (chB d)) (Fin (count d))),
       weight = dbl_add (weight s) (Fin (count d)) \<rparr>"

text \<open>
  The assignment loop. \<^verbatim>\<open>sums[bestIndex]!.sumR += ...\<close> on a missing element (no
  centroid at all) is a TypeError.
\<close>

fun assignLoop :: "DataPoint list \<Rightarrow> Centroid list \<Rightarrow> Sums list \<Rightarrow> error + Sums list" where
  "assignLoop [] centroids sums0 = Inr sums0"
| "assignLoop (d # ds) centroids sums0 =
     (let bestIndex = nearestLoop d centroids 0 0 PosInf
      in if bestIndex < length sums0
         then assignLoop ds centroids (sums0[bestIndex := addPoint d (sums0 ! bestIndex)])
         else Inl TypeError)"

text \<open>
  The update loop, over the centroids paired with their sums: the new centroids with
  their cluster weights, the flag \<^verbatim>\<open>converged\<close> and the index of the next random draw.
  A new centroid is NaN in a channel whose sum and weight have both overflowed. A cluster
  without weight is reseeded with
  \<^verbatim>\<open>data[Math.floor(Math.random() * data.length)]!\<close>; an index outside the data leaves
  \<^verbatim>\<open>undefined\<close> in the centroid array, which is the TypeError of its next use.
\<close>

fun updateLoop ::
  "DataPoint list \<Rightarrow> (Centroid \<times> Sums) list \<Rightarrow> random \<Rightarrow> nat
     \<Rightarrow> error + ((Centroid \<times> real jsnum) list \<times> bool \<times> nat)" where
  "updateLoop ds [] rnd n = Inr ([], True, n)"
| "updateLoop ds ((c, s) # rest) rnd n =
     (if js_gt (weight s) (Fin 0) then
        (let newCentroid =
               \<lparr>chR = dbl_div (sumR s) (weight s), chG = dbl_div (sumG s) (weight s),
                chB = dbl_div (sumB s) (weight s)\<rparr>;
             moved = js_gt (euclideanDistanceSquared c newCentroid) (Fin 1.0)
         in case updateLoop ds rest rnd n of
              Inl e \<Rightarrow> Inl e
            | Inr (out, converged, n') \<Rightarrow>
                Inr ((newCentroid, weight s) # out, converged \<and> \<not> moved, n'))
      else
        (let idx = \<lfloor>rnd n * real (length ds)\<rfloor>
         in if 0 \<le> idx \<and> nat idx < length ds then
              (case updateLoop ds rest rnd (n + 1) of
                 Inl e \<Rightarrow> Inl e
               | Inr (out, converged, n') \<Rightarrow>
                   Inr ((pointColor (ds ! nat idx), Fin 0) # out, False, n'))
            else Inl TypeError))"

text \<open>
  The iterations of \<^verbatim>\<open>kMeansClustering\<close>, counted down from \<^verbatim>\<open>maxIterations\<close>; the
  state is the centroid array and \<^verbatim>\<open>clusterWeights\<close>.
\<close>

fun kMeansLoop ::
  "nat \<Rightarrow> DataPoint list \<Rightarrow> Centroid list \<Rightarrow> real jsnum list \<Rightarrow> random \<Rightarrow> nat
     \<Rightarrow> error + (Centroid list \<times> real jsnum list \<times> nat)" where
  "kMeansLoop 0 ds centroids clusterWeights rnd n = Inr (centroids, clusterWeights, n)"
| "kMeansLoop (Suc m) ds centroids clusterWeights rnd n =
     (case assignLoop ds centroids
             (replicate (length centroids)
                \<lparr>sumR = Fin 0, sumG = Fin 0, sumB = Fin 0, weight = Fin 0\<rparr>) of
        Inl e \<Rightarrow> Inl e
      | Inr sums0 \<Rightarrow>
          (case updateLoop ds (zip centroids sums0) rnd n of
             Inl e \<Rightarrow> Inl e
           | Inr (out, converged, n') \<Rightarrow>
               if converged then Inr (map fst out, map snd out, n')
               else kMeansLoop m ds (map fst out) (map snd out) rnd n'))"

definition kMeansClustering ::
  "DataPoint list \<Rightarrow> Centroid list \<Rightarrow> nat \<Rightarrow> random \<Rightarrow> nat
     \<Rightarrow> error + (Centroid list \<times> real jsnum list \<times> nat)" where
  "kMeansClustering ds centroids maxIterations rnd n =
     kMeansLoop maxIterations ds centroids (replicate (length centroids) (Fin 0)) rnd n"

text \<open>The callback that turns an entry of the map into a data point, or \<^verbatim>\<open>null\<close>.\<close>

definition parseEntry :: "string \<times> real \<Rightarrow> DataPoint option" where
  "parseEntry e =
     (case map parseInt (split_comma (fst e)) of
        [Some x, Some y, Some z] \<Rightarrow>
          Some \<lparr>chR = of_int x, chG = of_int y, chB = of_int z, count = snd e\<rparr>
      | _ \<Rightarrow> None)"

text \<open>
  \<^verbatim>\<open>Math.min(255, Math.max(0, Math.round(x)))\<close>: NaN stays NaN, everything else ends in
  [0, 255].
\<close>

definition clampRound :: "real jsnum \<Rightarrow> real jsnum" where
  "clampRound x = js_min (Fin 255) (js_max (Fin 0) (Math_round x))"

definition centroidColor :: "Centroid \<Rightarrow> NumColor" where
  "centroidColor c = \<lparr>chR = clampRound (chR c), chG = clampRound (chG c), chB = clampRound (chB c)\<rparr>"

text \<open>
  \<^verbatim>\<open>clusters.sort((a, b) => (b.weight ?? 0) - (a.weight ?? 0))\<close>: the weights are numbers,
  never \<^verbatim>\<open>undefined\<close>.
\<close>

definition byWeight :: "Centroid \<times> real jsnum \<Rightarrow> Centroid \<times> real jsnum \<Rightarrow> real jsnum" where
  "byWeight a b = dbl_sub (snd b) (snd a)"

definition sortClusters :: "(Centroid \<times> real jsnum) list \<Rightarrow> (Centroid \<times> real jsnum) list" where
  "sortClusters clusters = sortWith byWeight clusters"

definition extractDominantColors :: "ColorCounts \<Rightarrow> nat \<Rightarrow> random \<Rightarrow> error + NumColor list" where
  "extractDominantColors colorCounts k rnd =
     (let ds = List.map_filter parseEntry colorCounts
      in if length ds = 0 then Inr []
         else if length ds \<le> k then Inr (map pointColor ds)
         else
           (case initializeCentroidsKMeansPP ds k rnd 0 of
              Inl e \<Rightarrow> Inl e
            | Inr (centroids, n) \<Rightarrow>
                (case kMeansClustering ds centroids 10 rnd n of
                   Inl e \<Rightarrow> Inl e
                 | Inr (finalCentroids, clusterWeights, n') \<Rightarrow>
                     Inr (map (\<lambda>c. centroidColor (fst c))
                            (sortClusters (zip finalCentroids clusterWeights))))))"

section \<open>The canvas\<close>

text \<open>
  The canvas is outside the program; what the program reads of it is its width, its
  height and the byte array \<^verbatim>\<open>ctx.getImageData(0, 0, width, height).data\<close> (four bytes a
  pixel, row by row). \<open>imageData = None\<close> stands for \<^verbatim>\<open>canvas.getContext('2d')\<close>
  returning \<^verbatim>\<open>null\<close>.
\<close>

record Canvas =
  width :: nat
  height :: nat
  imageData :: "nat list option"

text \<open>What the platform guarantees of the byte array.\<close>

definition rgbaBuffer :: "nat list \<Rightarrow> bool" where
  "rgbaBuffer pixels = (4 dvd length pixels \<and> (\<forall>v \<in> set pixels. v \<le> 255))"

section \<open>Palette extraction\<close>

text \<open>\<^verbatim>\<open>getSaturation\<close> on finite channels.\<close>

definition getSaturation :: "(real, 'x) rgb_scheme \<Rightarrow> real" where
  "getSaturation color =
     (let mx = max (max (chR color) (chG color)) (chB color);
          mn = min (min (chR color) (chG color)) (chB color)
      in if mx = 0 then 0 else (mx - mn) / mx)"

text \<open>\<^verbatim>\<open>getSaturation\<close> on the colours of a palette, whose channels may be NaN or infinite.\<close>

definition getSaturationNum :: "NumColor \<Rightarrow> real jsnum" where
  "getSaturationNum color =
     (let mx = js_max (js_max (chR color) (chG color)) (chB color);
          mn = js_min (js_min (chR color) (chG color)) (chB color)
      in if js_eq mx (Fin 0) then Fin 0 else js_divide (js_sub mx mn) mx)"

text \<open>
  The loop of \<^verbatim>\<open>extractColorPalette\<close> that counts the colours. It has no check for
  \<^verbatim>\<open>undefined\<close>: a buffer that ends inside a pixel gives a key with \<^verbatim>\<open>undefined\<close> in it.
\<close>

fun paletteCounts :: "nat list \<Rightarrow> ColorCounts \<Rightarrow> ColorCounts" where
  "paletteCounts (rv # gv # bv # av # rest) m =
     paletteCounts rest (countColor (colorKey (Some rv) (Some gv) (Some bv)) m)"
| "paletteCounts [rv, gv, bv] m = countColor (colorKey (Some rv) (Some gv) (Some bv)) m"
| "paletteCounts [rv, gv] m = countColor (colorKey (Some rv) (Some gv) None) m"
| "paletteCounts [rv] m = countColor (colorKey (Some rv) None None) m"
| "paletteCounts [] m = m"

definition saturationFactor :: real where
  "saturationFactor = 1"

text \<open>
  The callback of \<^verbatim>\<open>extractColorPalette\<close>: \<^verbatim>\<open>const [r, g, b] = parts\<close> takes the first
  three parts and ignores further ones.
\<close>

definition parsePaletteEntry :: "string \<times> real \<Rightarrow> DataPoint option" where
  "parsePaletteEntry e =
     (case map parseInt (split_comma (fst e)) of
        Some x # Some y # Some z # _ \<Rightarrow>
          (let saturation = getSaturation \<lparr>chR = of_int x, chG = of_int y, chB = of_int z\<rparr>;
               effectiveCount = snd e * (1 + saturationFactor * saturation)
           in Some \<lparr>chR = of_int x, chG = of_int y, chB = of_int z, count = effectiveCount\<rparr>)
      | _ \<Rightarrow> None)"

definition extractColorPalette :: "Canvas \<Rightarrow> nat \<Rightarrow> error + NumColor list" where
  "extractColorPalette canvas paletteSize =
     (case imageData canvas of
        None \<Rightarrow> Inl ContextUnavailable
      | Some pixels \<Rightarrow>
          (let colorCounts = paletteCounts pixels [];
               ds = List.map_filter parsePaletteEntry colorCounts
           in if length ds = 0 then Inr [] else Inr (medianCutQuantize ds paletteSize)))"

section \<open>Distinct palette\<close>

definition colorDistance :: "NumColor \<Rightarrow> NumColor \<Rightarrow> real jsnum" where
  "colorDistance c1 c2 =
     (let dr = js_sub (chR c1) (chR c2);
          dg = js_sub (chG c1) (chG c2);
          db = js_sub (chB c1) (chB c2)
      in Math_sqrt (js_add (js_add (js_mul dr dr) (js_mul dg dg)) (js_mul db db)))"

text \<open>The comparator \<^verbatim>\<open>(a, b) => getSaturation(b) - getSaturation(a)\<close>.\<close>

definition bySaturation :: "NumColor \<Rightarrow> NumColor \<Rightarrow> real jsnum" where
  "bySaturation a b = js_sub (getSaturationNum b) (getSaturationNum a)"

text \<open>The loop \<^verbatim>\<open>for (const sel of selected)\<close>, from \<^verbatim>\<open>minDistance = Infinity\<close>.\<close>

fun minDistanceLoop :: "NumColor \<Rightarrow> NumColor list \<Rightarrow> real jsnum \<Rightarrow> real jsnum" where
  "minDistanceLoop candidate [] minDistance = minDistance"
| "minDistanceLoop candidate (sel # rest) minDistance =
     (if js_lt (colorDistance candidate sel) minDistance
      then minDistanceLoop candidate rest (colorDistance candidate sel)
      else minDistanceLoop candidate rest minDistance)"

text \<open>
  The loop over \<^verbatim>\<open>sortedCandidates\<close>, from \<^verbatim>\<open>candidateIndex = -1\<close> (\<open>None\<close>) and
  \<^verbatim>\<open>maxMinDistance = -Infinity\<close>.
\<close>

fun candidateLoop ::
  "NumColor list \<Rightarrow> NumColor list \<Rightarrow> nat \<Rightarrow> nat option \<Rightarrow> real jsnum \<Rightarrow> nat option" where
  "candidateLoop [] selected i candidateIndex maxMinDistance = candidateIndex"
| "candidateLoop (candidate # rest) selected i candidateIndex maxMinDistance =
     (if js_gt (minDistanceLoop candidate selected PosInf) maxMinDistance
      then candidateLoop rest selected (i + 1) (Some i) (minDistanceLoop candidate selected PosInf)
      else candidateLoop rest selected (i + 1) candidateIndex maxMinDistance)"

definition nextCandidate :: "NumColor list \<Rightarrow> NumColor list \<Rightarrow> nat option" where
  "nextCandidate selected sortedCandidates = candidateLoop sortedCandidates selected 0 None NegInf"

lemma nextCandidate_less: "nextCandidate selected cands = Some i \<Longrightarrow> i < length cands"
proof -
  have "candidateLoop cs sel j best m = Some i \<Longrightarrow> (\<forall>k. best = Some k \<longrightarrow> k < j)
          \<Longrightarrow> i < j + length cs" for cs sel j best m
  proof (induction cs sel j best m rule: candidateLoop.induct)
    case (1 selected i candidateIndex maxMinDistance)
    then show ?case by simp
  next
    case (2 candidate rest selected j candidateIndex maxMinDistance)
    then show ?case by (auto split: if_splits simp: less_Suc_eq)
  qed
  from this [of cands selected 0 None NegInf] show "nextCandidate selected cands = Some i \<Longrightarrow> i < length cands"
    by (simp add: nextCandidate_def)
qed

text \<open>\<^verbatim>\<open>sortedCandidates.splice(candidateIndex, 1)\<close>: the list without its element \<open>i\<close>.\<close>

definition removeAt :: "nat \<Rightarrow> 'a list \<Rightarrow> 'a list" where
  "removeAt i xs = take i xs @ drop (i + 1) xs"

text \<open>The greedy \<^verbatim>\<open>while\<close> loop of \<^verbatim>\<open>extractDistinctColorPalette\<close>.\<close>

function selectLoop :: "NumColor list \<Rightarrow> NumColor list \<Rightarrow> nat \<Rightarrow> NumColor list" where
  "selectLoop selected sortedCandidates distinctCount =
     (if length selected < distinctCount \<and> length sortedCandidates > 0 then
        (case nextCandidate selected sortedCandidates of
           Some i \<Rightarrow>
             selectLoop (selected @ [sortedCandidates ! i]) (removeAt i sortedCandidates)
               distinctCount
         | None \<Rightarrow> selected)
      else selected)"
  by pat_completeness auto
termination
proof (relation "measure (\<lambda>(selected, sortedCandidates, distinctCount). length sortedCandidates)")
  show "wf (measure (\<lambda>(selected, sortedCandidates, distinctCount). length sortedCandidates))"
    by simp
next
  fix selected sortedCandidates :: "NumColor list" and distinctCount i :: nat
  assume "nextCandidate selected sortedCandidates = Some i"
  from nextCandidate_less [OF this]
  show "((selected @ [sortedCandidates ! i], removeAt i sortedCandidates, distinctCount),
         (selected, sortedCandidates, distinctCount))
      \<in> measure (\<lambda>(selected, sortedCandidates, distinctCount). length sortedCandidates)"
    by (simp add: removeAt_def)
qed

declare selectLoop.simps [simp del]

text \<open>
  What \<^verbatim>\<open>extractDistinctColorPalette\<close> does with the candidate palette. The sorted
  array is not empty where \<^verbatim>\<open>shift()\<close> is called: it has more than \<open>distinctCount\<close>
  elements.
\<close>

definition selectDistinct :: "NumColor list \<Rightarrow> nat \<Rightarrow> NumColor list" where
  "selectDistinct candidatePalette distinctCount =
     (if length candidatePalette \<le> distinctCount then candidatePalette
      else
        (case sortWith bySaturation candidatePalette of
           [] \<Rightarrow> []
         | first # sortedCandidates \<Rightarrow> selectLoop [first] sortedCandidates distinctCount))"

definition extractDistinctColorPalette :: "Canvas \<Rightarrow> nat \<Rightarrow> nat \<Rightarrow> error + NumColor list" where
  "extractDistinctColorPalette canvas distinctCount candidateSizeFactor =
     (let candidateCount = distinctCount * candidateSizeFactor
      in case extractColorPalette canvas candidateCount of
           Inl e \<Rightarrow> Inl e
         | Inr candidatePalette \<Rightarrow> Inr (selectDistinct candidatePalette distinctCount))"

text \<open>The default of the optional parameter: \<^verbatim>\<open>candidateSizeFactor: number = 2\<close>.\<close>

definition defaultCandidateSizeFactor :: nat where
  "defaultCandidateSizeFactor = 2"

section \<open>The diversity selection in the words of the specification\<close>

text \<open>
  On colours with finite channels: the candidates are sorted by descending saturation, the
  first one seeds the selection, and each step adds the remaining candidate whose minimum
  Euclidean distance to the selected colours is largest, the first such candidate on a
  tie, until \<open>distinctCount\<close> colours are selected or no candidate is left.
\<close>

definition spec_distance :: "Color \<Rightarrow> Color \<Rightarrow> real" where
  "spec_distance c1 c2 =
     sqrt ((chR c1 - chR c2)\<^sup>2 + (chG c1 - chG c2)\<^sup>2 + (chB c1 - chB c2)\<^sup>2)"

definition spec_minDistance :: "Color list \<Rightarrow> Color \<Rightarrow> real" where
  "spec_minDistance selected c = Min (set (map (spec_distance c) selected))"

definition spec_farthest :: "Color list \<Rightarrow> Color list \<Rightarrow> nat" where
  "spec_farthest selected candidates =
     (let best = Max (set (map (spec_minDistance selected) candidates))
      in length (takeWhile (\<lambda>c. spec_minDistance selected c \<noteq> best) candidates))"

fun spec_greedy :: "nat \<Rightarrow> Color list \<Rightarrow> Color list \<Rightarrow> Color list" where
  "spec_greedy 0 selected candidates = selected"
| "spec_greedy (Suc picks) selected [] = selected"
| "spec_greedy (Suc picks) selected candidates =
     (let i = spec_farthest selected candidates
      in spec_greedy picks (selected @ [candidates ! i]) (removeAt i candidates))"

definition spec_distinct :: "Color list \<Rightarrow> nat \<Rightarrow> Color list" where
  "spec_distinct candidates distinctCount =
     (if length candidates \<le> distinctCount then candidates
      else
        (case sort_key (\<lambda>c. - getSaturation c) candidates of
           [] \<Rightarrow> []
         | seed # others \<Rightarrow> spec_greedy (distinctCount - 1) [seed] others))"

section \<open>Histogram\<close>

text \<open>The fields \<^verbatim>\<open>count\<close> and \<^verbatim>\<open>value\<close> of a bin are \<open>binCount\<close> and \<open>binValue\<close>.\<close>

record HistogramBin =
  binCount :: nat
  binValue :: nat

text \<open>The fields \<^verbatim>\<open>r\<close>, \<^verbatim>\<open>g\<close>, \<^verbatim>\<open>b\<close> of a histogram are \<open>histR\<close>, \<open>histG\<close>, \<open>histB\<close>.\<close>

record Histogram =
  histR :: "HistogramBin list"
  histG :: "HistogramBin list"
  histB :: "HistogramBin list"
  totalPixels :: real

definition HISTOGRAM_BINS :: nat where
  "HISTOGRAM_BINS = 32"

definition createBins :: "HistogramBin list" where
  "createBins =
     map (\<lambda>i. \<lparr>binCount = 0, binValue = (i * 256) div HISTOGRAM_BINS\<rparr>) [0..<HISTOGRAM_BINS]"

definition initializeHistogram :: Histogram where
  "initializeHistogram =
     \<lparr>histR = createBins, histG = createBins, histB = createBins, totalPixels = 0\<rparr>"

definition getBinIndex :: "nat \<Rightarrow> nat" where
  "getBinIndex v = (v * HISTOGRAM_BINS) div 256"

text \<open>\<^verbatim>\<open>bin.count++\<close> on the bin \<open>i\<close> of one channel.\<close>

definition incrementBin :: "nat \<Rightarrow> HistogramBin list \<Rightarrow> HistogramBin list" where
  "incrementBin i bins = bins[i := (bins ! i)\<lparr>binCount := binCount (bins ! i) + 1\<rparr>]"

text \<open>
  A bin index beyond the array reads \<^verbatim>\<open>undefined\<close>; then nothing is counted (and a
  warning is logged).
\<close>

definition updateHistogram :: "Histogram \<Rightarrow> nat \<Rightarrow> nat \<Rightarrow> nat \<Rightarrow> Histogram" where
  "updateHistogram h rv gv bv =
     (if getBinIndex rv < length (histR h) \<and> getBinIndex gv < length (histG h) \<and>
         getBinIndex bv < length (histB h)
      then h\<lparr> histR := incrementBin (getBinIndex rv) (histR h),
               histG := incrementBin (getBinIndex gv) (histG h),
               histB := incrementBin (getBinIndex bv) (histB h) \<rparr>
      else h)"

section \<open>Brightness\<close>

definition linearChannel :: "real \<Rightarrow> real" where
  "linearChannel s = (if s \<le> 0.03928 then s / 12.92 else ((s + 0.055) / 1.055) powr 2.4)"

definition calculatePixelBrightness :: "real \<Rightarrow> real \<Rightarrow> real \<Rightarrow> real" where
  "calculatePixelBrightness rv gv bv =
     0.2126 * linearChannel (rv / 255) + 0.7152 * linearChannel (gv / 255)
       + 0.0722 * linearChannel (bv / 255)"

text \<open>The fields \<^verbatim>\<open>min\<close> and \<^verbatim>\<open>max\<close> of the range are \<open>rangeMin\<close> and \<open>rangeMax\<close>.\<close>

record BrightnessRange =
  rangeMin :: real
  rangeMax :: real

record Brightness =
  averageBrightness :: "real jsnum"
  brightnessRange :: BrightnessRange

section \<open>Block variance\<close>

text \<open>\<^verbatim>\<open>pixels[i]\<close>: \<^verbatim>\<open>undefined\<close> beyond the end of the buffer.\<close>

definition pixelAt :: "nat list \<Rightarrow> nat \<Rightarrow> nat option" where
  "pixelAt pixels i = (if i < length pixels then Some (pixels ! i) else None)"

text \<open>
  The pixel at \<open>(x, y)\<close> as both passes read it, \<open>None\<close> when
  \<^verbatim>\<open>if (!r || !g || !b) continue\<close> skips it: a channel that is \<^verbatim>\<open>undefined\<close> or 0.
\<close>

definition countedPixel :: "nat list \<Rightarrow> nat \<Rightarrow> nat \<times> nat \<Rightarrow> (real \<times> real \<times> real) option" where
  "countedPixel pixels w xy =
     (let i = (snd xy * w + fst xy) * 4
      in case (pixelAt pixels i, pixelAt pixels (i + 1), pixelAt pixels (i + 2)) of
           (Some rv, Some gv, Some bv) \<Rightarrow>
             if rv = 0 \<or> gv = 0 \<or> bv = 0 then None else Some (real rv, real gv, real bv)
         | _ \<Rightarrow> None)"

text \<open>The coordinates that the nested loops over \<open>y\<close> and \<open>x\<close> visit, in their order.\<close>

definition blockCoordinates :: "nat \<Rightarrow> nat \<Rightarrow> nat \<Rightarrow> nat \<Rightarrow> (nat \<times> nat) list" where
  "blockCoordinates startX endX startY endY =
     concat (map (\<lambda>y. map (\<lambda>x. (x, y)) [startX..<endX]) [startY..<endY])"

text \<open>First pass: \<open>(totalR, totalG, totalB, pixelCount)\<close>.\<close>

definition meanPass ::
  "nat list \<Rightarrow> nat \<Rightarrow> (nat \<times> nat) list \<Rightarrow> real \<times> real \<times> real \<times> nat" where
  "meanPass pixels w coords =
     fold (\<lambda>xy (totalR, totalG, totalB, pixelCount).
             case countedPixel pixels w xy of
               None \<Rightarrow> (totalR, totalG, totalB, pixelCount)
             | Some (rv, gv, bv) \<Rightarrow> (totalR + rv, totalG + gv, totalB + bv, pixelCount + 1))
       coords (0, 0, 0, 0)"

text \<open>Second pass: \<open>(varR, varG, varB)\<close>.\<close>

definition variancePass ::
  "nat list \<Rightarrow> nat \<Rightarrow> (nat \<times> nat) list \<Rightarrow> real \<Rightarrow> real \<Rightarrow> real \<Rightarrow> real \<times> real \<times> real" where
  "variancePass pixels w coords meanR meanG meanB =
     fold (\<lambda>xy (varR, varG, varB).
             case countedPixel pixels w xy of
               None \<Rightarrow> (varR, varG, varB)
             | Some (rv, gv, bv) \<Rightarrow>
                 (varR + (rv - meanR) * (rv - meanR), varG + (gv - meanG) * (gv - meanG),
                  varB + (bv - meanB) * (bv - meanB)))
       coords (0, 0, 0)"

definition BLOCK_SIZE :: nat where
  "BLOCK_SIZE = 16"

text \<open>
  The body of the loop over the blocks: \<open>None\<close> for \<^verbatim>\<open>if (pixelCount === 0) continue\<close>,
  otherwise the element pushed on \<^verbatim>\<open>blockVariances\<close>.
\<close>

definition blockVariance :: "nat list \<Rightarrow> nat \<Rightarrow> nat \<Rightarrow> nat \<times> nat \<Rightarrow> Color option" where
  "blockVariance pixels w h block =
     (let startX = fst block * BLOCK_SIZE;
          startY = snd block * BLOCK_SIZE;
          endX = min (startX + BLOCK_SIZE) w;
          endY = min (startY + BLOCK_SIZE) h;
          coords = blockCoordinates startX endX startY endY
      in case meanPass pixels w coords of (totalR, totalG, totalB, pixelCount) \<Rightarrow>
           if pixelCount = 0 then None
           else
             (let meanR = totalR / real pixelCount;
                  meanG = totalG / real pixelCount;
                  meanB = totalB / real pixelCount
              in case variancePass pixels w coords meanR meanG meanB of (varR, varG, varB) \<Rightarrow>
                   Some \<lparr>chR = varR / real pixelCount, chG = varG / real pixelCount,
                          chB = varB / real pixelCount\<rparr>))"

text \<open>\<^verbatim>\<open>Math.ceil(n / BLOCK_SIZE)\<close>.\<close>

definition blockCount :: "nat \<Rightarrow> nat" where
  "blockCount n = (n + BLOCK_SIZE - 1) div BLOCK_SIZE"

definition blockVariances :: "nat list \<Rightarrow> nat \<Rightarrow> nat \<Rightarrow> Color list" where
  "blockVariances pixels w h =
     List.map_filter (blockVariance pixels w h)
       (concat (map (\<lambda>blockY. map (\<lambda>blockX. (blockX, blockY)) [0..<blockCount w])
                  [0..<blockCount h]))"

text \<open>\<^verbatim>\<open>sorted[percentileIndex] || 0\<close>: 0 for \<^verbatim>\<open>undefined\<close> (and for 0).\<close>

definition percentileOr0 :: "real list \<Rightarrow> nat \<Rightarrow> real" where
  "percentileOr0 sortedValues i = (if i < length sortedValues then sortedValues ! i else 0)"

definition calculateColorVariance :: "Canvas \<Rightarrow> error + Color" where
  "calculateColorVariance canvas =
     (case imageData canvas of
        None \<Rightarrow> Inl ContextUnavailable
      | Some pixels \<Rightarrow>
          (let bvs = blockVariances pixels (width canvas) (height canvas);
               sortedR = sort (map chR bvs);
               sortedG = sort (map chG bvs);
               sortedB = sort (map chB bvs);
               percentileIndex = nat \<lfloor>real (length bvs) * 0.75\<rfloor>
           in Inr \<lparr>chR = percentileOr0 sortedR percentileIndex,
                    chG = percentileOr0 sortedG percentileIndex,
                    chB = percentileOr0 sortedB percentileIndex\<rparr>))"

section \<open>The analysis\<close>

text \<open>
  \<^verbatim>\<open>VisualMetadata\<close>. The analysis fills every field, with an average colour that is
  the result of a division; the comparators accept values in which fields are absent.
  The record leaves the types of these fields open: \<open>'a\<close> for the average colour, \<open>'d\<close>
  for the dominant colours, \<open>'p\<close> for the two palettes, \<open>'h\<close> for the histogram.
\<close>

record ('a, 'd, 'p, 'h) VisualMetadata =
  averageColor :: 'a
  dominantColors :: 'd
  representativePaletteColors :: 'p
  distinctPaletteColors :: 'p
  histogram :: 'h
  brightness :: Brightness
  colorVariance :: Color

type_synonym AnalysisResult = "(NumColor, NumColor list, NumColor list, Histogram) VisualMetadata"

definition CANDIDATE_SIZE_FACTOR :: nat where
  "CANDIDATE_SIZE_FACTOR = 12"

text \<open>
  The variables that the pixel loop of \<^verbatim>\<open>analyzeImageColors\<close> updates: \<^verbatim>\<open>histogram\<close>,
  \<^verbatim>\<open>colorCounts\<close>, \<^verbatim>\<open>totalR\<close> and so on, each with the prefix \<open>acc\<close>.
\<close>

record PixelStats =
  accHistogram :: Histogram
  accColorCounts :: ColorCounts
  accTotalR :: real
  accTotalG :: real
  accTotalB :: real
  accMinBrightness :: real
  accMaxBrightness :: real
  accTotalBrightness :: real

definition initialStats :: PixelStats where
  "initialStats =
     \<lparr> accHistogram = initializeHistogram, accColorCounts = [], accTotalR = 0, accTotalG = 0,
       accTotalB = 0, accMinBrightness = 1, accMaxBrightness = 0, accTotalBrightness = 0 \<rparr>"

definition processPixel :: "nat \<Rightarrow> nat \<Rightarrow> nat \<Rightarrow> PixelStats \<Rightarrow> PixelStats" where
  "processPixel rv gv bv st =
     (let pixelBrightness = calculatePixelBrightness (real rv) (real gv) (real bv)
      in \<lparr> accHistogram = updateHistogram (accHistogram st) rv gv bv,
           accColorCounts = countColor (colorKey (Some rv) (Some gv) (Some bv)) (accColorCounts st),
           accTotalR = accTotalR st + real rv,
           accTotalG = accTotalG st + real gv,
           accTotalB = accTotalB st + real bv,
           accMinBrightness = min (accMinBrightness st) pixelBrightness,
           accMaxBrightness = max (accMaxBrightness st) pixelBrightness,
           accTotalBrightness = accTotalBrightness st + pixelBrightness \<rparr>)"

text \<open>
  The loop \<^verbatim>\<open>for (let i = 0; i < pixels.length; i += 4)\<close>: a pixel whose red, green or
  blue byte lies beyond the buffer is skipped (\<^verbatim>\<open>continue\<close>); the alpha byte is not read.
\<close>

fun pixelLoop :: "nat list \<Rightarrow> PixelStats \<Rightarrow> PixelStats" where
  "pixelLoop (rv # gv # bv # av # rest) st = pixelLoop rest (processPixel rv gv bv st)"
| "pixelLoop [rv, gv, bv] st = processPixel rv gv bv st"
| "pixelLoop _ st = st"

text \<open>
  \<^verbatim>\<open>analyzeImageColors\<close>. The constants \<^verbatim>\<open>DOMINANT_COLORS_COUNT\<close> and
  \<^verbatim>\<open>PALETTE_COLORS_COUNT\<close> come from a module that is not part of the sources at hand;
  they are parameters here.
\<close>

definition analyzeImageColors :: "nat \<Rightarrow> nat \<Rightarrow> random \<Rightarrow> Canvas \<Rightarrow> error + AnalysisResult" where
  "analyzeImageColors DOMINANT_COLORS_COUNT PALETTE_COLORS_COUNT rnd canvas =
     (case imageData canvas of
        None \<Rightarrow> Inl ContextUnavailable
      | Some pixels \<Rightarrow>
          (let st = pixelLoop pixels initialStats;
               pixelTotal = real (length pixels) / 4;
               hist = (accHistogram st)\<lparr>totalPixels := pixelTotal\<rparr>;
               average = \<lparr> chR = Math_round (js_div (accTotalR st) pixelTotal),
                           chG = Math_round (js_div (accTotalG st) pixelTotal),
                           chB = Math_round (js_div (accTotalB st) pixelTotal) \<rparr>
           in case extractDominantColors (accColorCounts st) DOMINANT_COLORS_COUNT rnd of
                Inl e \<Rightarrow> Inl e
              | Inr dominant \<Rightarrow>
           (case extractColorPalette canvas PALETTE_COLORS_COUNT of
                Inl e \<Rightarrow> Inl e
              | Inr representative \<Rightarrow>
           (case extractDistinctColorPalette canvas PALETTE_COLORS_COUNT CANDIDATE_SIZE_FACTOR of
                Inl e \<Rightarrow> Inl e
              | Inr distinctColors \<Rightarrow>
           (case calculateColorVariance canvas of
                Inl e \<Rightarrow> Inl e
              | Inr variance \<Rightarrow>
                  Inr \<lparr> averageColor = average,
                        dominantColors = dominant,
                        representativePaletteColors = representative,
                        distinctPaletteColors = distinctColors,
                        histogram = hist,
                        brightness =
                          \<lparr> averageBrightness = js_div (accTotalBrightness st) pixelTotal,
                            brightnessRange =
                              \<lparr>rangeMin = accMinBrightness st, rangeMax = accMaxBrightness st\<rparr> \<rparr>,
                        colorVariance = variance \<rparr>)))))"

section \<open>Comparators\<close>

text \<open>
  The comparators read metadata whose fields may be absent (\<^verbatim>\<open>undefined\<close>, \<open>None\<close>); an
  empty array is present. Their colours have finite channels.
\<close>

type_synonym SortMetadata =
  "(Color option, Color list option, Color list option, Histogram option) VisualMetadata"

text \<open>\<^verbatim>\<open>imageMetadata.averageColor || { r: 0, g: 0, b: 0 }\<close>.\<close>

definition getAverageColor :: "SortMetadata \<Rightarrow> Color" where
  "getAverageColor imageMetadata =
     (case averageColor imageMetadata of
        None \<Rightarrow> \<lparr>chR = 0, chG = 0, chB = 0\<rparr>
      | Some c \<Rightarrow> c)"

text \<open>The elements of an array with their indices, as \<^verbatim>\<open>reduce\<close> and the loops see them.\<close>

definition indexed :: "'a list \<Rightarrow> ('a \<times> nat) list" where
  "indexed xs = zip xs [0..<length xs]"

text \<open>The sum \<^verbatim>\<open>colors.reduce((sum, _, index) => sum + 1 / (index + 1), 0)\<close>.\<close>

definition weightSum :: "'a list \<Rightarrow> real" where
  "weightSum colors = foldl (\<lambda>s ci. s + 1 / (real (snd ci) + 1)) 0 (indexed colors)"

definition getWeightedBrightness :: "Color list option \<Rightarrow> real" where
  "getWeightedBrightness colors =
     (case colors of
        None \<Rightarrow> 0
      | Some cs \<Rightarrow>
          if length cs = 0 then 0
          else foldl (\<lambda>s ci. s + calculatePixelBrightness (chR (fst ci)) (chG (fst ci))
                                    (chB (fst ci)) * (1 / (real (snd ci) + 1)))
                 0 (indexed cs)
               / weightSum cs)"

text \<open>
  \<^verbatim>\<open>compareByLuminance\<close>, with its two conditional expressions as they are written: each
  falls back on the average colour when \<^verbatim>\<open>dominantColors\<close> is absent.
\<close>

definition compareByLuminance :: "SortMetadata \<Rightarrow> SortMetadata \<Rightarrow> real" where
  "compareByLuminance ma mb =
     (if dominantColors ma = None \<or> dominantColors mb = None then 0
      else
        (let aBrightness =
               (case dominantColors ma of
                  Some cs \<Rightarrow> getWeightedBrightness (Some cs)
                | None \<Rightarrow>
                    calculatePixelBrightness (chR (getAverageColor ma)) (chG (getAverageColor ma))
                      (chB (getAverageColor ma)));
             bBrightness =
               (case dominantColors mb of
                  Some cs \<Rightarrow> getWeightedBrightness (Some cs)
                | None \<Rightarrow>
                    calculatePixelBrightness (chR (getAverageColor mb)) (chG (getAverageColor mb))
                      (chB (getAverageColor mb)))
         in bBrightness - aBrightness))"

text \<open>The result of \<^verbatim>\<open>rgbToHsl\<close>, fields \<^verbatim>\<open>h\<close>, \<^verbatim>\<open>s\<close>, \<^verbatim>\<open>l\<close>.\<close>

record HSL =
  hslH :: real
  hslS :: real
  hslL :: real

text \<open>
  \<^verbatim>\<open>rgbToHsl\<close>. For channels in [0, 255] with \<open>mx \<noteq> mn\<close> none of the divisors is zero.
\<close>

definition rgbToHsl :: "Color \<Rightarrow> HSL" where
  "rgbToHsl color =
     (let rv = chR color / 255;
          gv = chG color / 255;
          bv = chB color / 255;
          mx = max (max rv gv) bv;
          mn = min (min rv gv) bv;
          l = (mx + mn) / 2
      in if mx \<noteq> mn then
           (let d = mx - mn;
                s = (if l > 0.5 then d / (2 - mx - mn) else d / (mx + mn));
                h = (if mx = rv then (gv - bv) / d + (if gv < bv then 6 else 0)
                     else if mx = gv then (bv - rv) / d + 2
                     else if mx = bv then (rv - gv) / d + 4
                     else 0)
            in \<lparr>hslH = h / 6, hslS = s, hslL = l\<rparr>)
         else \<lparr>hslH = 0, hslS = 0, hslL = l\<rparr>)"

text \<open>\<^verbatim>\<open>isGrayscale(color)\<close> with the default \<^verbatim>\<open>threshold = 0.05\<close>.\<close>

definition isGrayscale :: "Color \<Rightarrow> bool" where
  "isGrayscale color =
     (\<bar>chR color - chG color\<bar> < 0.05 * 255 \<and> \<bar>chG color - chB color\<bar> < 0.05 * 255 \<and>
      \<bar>chR color - chB color\<bar> < 0.05 * 255)"

text \<open>The loop of \<^verbatim>\<open>getWeightedHue\<close>: \<open>(totalWeight, weightedHue, hasColorfulPixels)\<close>.\<close>

definition hueLoop :: "Color list \<Rightarrow> real \<times> real \<times> bool" where
  "hueLoop colors =
     foldl (\<lambda>(totalWeight, weightedHue, hasColorfulPixels) ci.
              if \<not> isGrayscale (fst ci) then
                (let w = 1 / (real (snd ci) + 1);
                     hsl = rgbToHsl (fst ci);
                     effectiveWeight = w * hslS hsl
                 in (totalWeight + effectiveWeight, weightedHue + hslH hsl * effectiveWeight, True))
              else (totalWeight, weightedHue, hasColorfulPixels))
       (0, 0, False) (indexed colors)"

definition getWeightedHue :: "Color list \<Rightarrow> real" where
  "getWeightedHue colors =
     (if length colors = 0 then - 1
      else
        (case hueLoop colors of (totalWeight, weightedHue, hasColorfulPixels) \<Rightarrow>
           if \<not> hasColorfulPixels \<or> totalWeight = 0 then - 1 else weightedHue / totalWeight))"

text \<open>\<^verbatim>\<open>m.dominantColors || [getAverageColor(m)]\<close>.\<close>

definition dominantOrAverage :: "SortMetadata \<Rightarrow> Color list" where
  "dominantOrAverage m =
     (case dominantColors m of Some cs \<Rightarrow> cs | None \<Rightarrow> [getAverageColor m])"

definition compareByHue :: "SortMetadata \<Rightarrow> SortMetadata \<Rightarrow> real" where
  "compareByHue ma mb =
     (if dominantColors ma = None \<or> dominantColors mb = None then 0
      else
        (let aHue = getWeightedHue (dominantOrAverage ma);
             bHue = getWeightedHue (dominantOrAverage mb)
         in if aHue = - 1 \<and> bHue = - 1 then compareByLuminance ma mb
            else if aHue = - 1 then 1
            else if bHue = - 1 then - 1
            else aHue - bHue))"

text \<open>
  The loop of \<^verbatim>\<open>getWeightedSaturation\<close>: \<open>(totalWeight, weightedSum, isImageGrayscale)\<close>;
  the division that follows it is by 0 on an empty array.
\<close>

definition saturationLoop :: "Color list \<Rightarrow> real \<times> real \<times> bool" where
  "saturationLoop colors =
     foldl (\<lambda>(totalWeight, weightedSum, isImageGrayscale) ci.
              (let color = fst ci;
                   w = 1 / (real (snd ci) + 1);
                   hsl = rgbToHsl color;
                   maxDiff = max (max \<bar>chR color - chG color\<bar> \<bar>chG color - chB color\<bar>)
                                 \<bar>chR color - chB color\<bar>;
                   isColorGrayscale = (maxDiff < 8);
                   effectiveSaturation = (if isColorGrayscale then 0 else hslS hsl)
               in (totalWeight + w, weightedSum + effectiveSaturation * w,
                   if \<not> isColorGrayscale \<and> w > 0.2 then False else isImageGrayscale)))
       (0, 0, True) (indexed colors)"

definition getWeightedSaturation :: "Color list \<Rightarrow> real jsnum \<times> bool" where
  "getWeightedSaturation colors =
     (case saturationLoop colors of (totalWeight, weightedSum, isImageGrayscale) \<Rightarrow>
        (js_div weightedSum totalWeight, isImageGrayscale))"

definition compareBySaturation :: "SortMetadata \<Rightarrow> SortMetadata \<Rightarrow> real jsnum" where
  "compareBySaturation ma mb =
     (if dominantColors ma = None \<or> dominantColors mb = None then Fin 0
      else
        (let aResult = getWeightedSaturation (dominantOrAverage ma);
             bResult = getWeightedSaturation (dominantOrAverage mb)
         in if snd aResult \<and> \<not> snd bResult then Fin 1
            else if \<not> snd aResult \<and> snd bResult then Fin (- 1)
            else if snd aResult \<and> snd bResult then Fin (compareByLuminance ma mb)
            else js_sub (fst bResult) (fst aResult)))"

text \<open>\<^verbatim>\<open>getColorTemperature\<close>: a division by 0 on an empty array.\<close>

definition getColorTemperature :: "Color list \<Rightarrow> real jsnum" where
  "getColorTemperature colors =
     js_div
       (foldl (\<lambda>s ci. s + (chR (fst ci) - chB (fst ci)) / 255 * (1 / (real (snd ci) + 1)))
          0 (indexed colors))
       (weightSum colors)"

definition compareByColorTemperature :: "SortMetadata \<Rightarrow> SortMetadata \<Rightarrow> real jsnum" where
  "compareByColorTemperature ma mb =
     (if dominantColors ma = None \<or> dominantColors mb = None then Fin 0
      else js_sub (getColorTemperature (dominantOrAverage mb))
             (getColorTemperature (dominantOrAverage ma)))"

section \<open>The block variance in the words of the specification\<close>

text \<open>
  The image is tiled into blocks of 16 by 16 pixels, the blocks at the right and bottom
  edges cut at the image bounds; in a block the pixels with a zero in any channel are left
  out; the variance of a channel over a block is the population variance of the pixels
  that are left; the result is, for each channel, the element of index \<open>\<lfloor>n \<times> 0.75\<rfloor>\<close> of
  the ascending block variances, \<open>n\<close> the number of blocks with a pixel left.
\<close>

definition spec_pixel :: "nat list \<Rightarrow> nat \<Rightarrow> nat \<times> nat \<Rightarrow> real \<times> real \<times> real" where
  "spec_pixel pixels w xy =
     (let i = 4 * (snd xy * w + fst xy)
      in (real (pixels ! i), real (pixels ! (i + 1)), real (pixels ! (i + 2))))"

definition spec_blockPixels ::
  "nat list \<Rightarrow> nat \<Rightarrow> nat \<Rightarrow> nat \<times> nat \<Rightarrow> (real \<times> real \<times> real) list" where
  "spec_blockPixels pixels w h block =
     filter (\<lambda>(rv, gv, bv). rv \<noteq> 0 \<and> gv \<noteq> 0 \<and> bv \<noteq> 0)
       (map (spec_pixel pixels w)
          [(x, y). y \<leftarrow> [16 * snd block..<min (16 * snd block + 16) h],
                   x \<leftarrow> [16 * fst block..<min (16 * fst block + 16) w]])"

definition spec_variance :: "real list \<Rightarrow> real" where
  "spec_variance vs =
     (let mean = sum_list vs / real (length vs)
      in sum_list (map (\<lambda>v. (v - mean)\<^sup>2) vs) / real (length vs))"

definition spec_blockVariances :: "nat list \<Rightarrow> nat \<Rightarrow> nat \<Rightarrow> Color list" where
  "spec_blockVariances pixels w h =
     map (\<lambda>ps. \<lparr>chR = spec_variance (map fst ps),
                  chG = spec_variance (map (\<lambda>p. fst (snd p)) ps),
                  chB = spec_variance (map (\<lambda>p. snd (snd p)) ps)\<rparr>)
       (filter (\<lambda>ps. ps \<noteq> [])
          (map (spec_blockPixels pixels w h)
             [(blockX, blockY). blockY \<leftarrow> [0..<(h + 15) div 16],
                                blockX \<leftarrow> [0..<(w + 15) div 16]]))"

definition spec_percentile75 :: "real list \<Rightarrow> real" where
  "spec_percentile75 vs = sort vs ! nat \<lfloor>real (length vs) * 0.75\<rfloor>"

text \<open>
  The frequency map that the pixel loop writes for the colours \<open>es\<close>, each \<open>(r, g, b)\<close> with
  its count, in order of first appearance.
\<close>

definition countsOf :: "((nat \<times> nat \<times> nat) \<times> real) list \<Rightarrow> ColorCounts" where
  "countsOf es = map (\<lambda>((rv, gv, bv), w). (colorKey (Some rv) (Some gv) (Some bv), w)) es"

definition pointsOf :: "((nat \<times> nat \<times> nat) \<times> real) list \<Rightarrow> DataPoint list" where
  "pointsOf es =
     map (\<lambda>((rv, gv, bv), w). \<lparr>chR = real rv, chG = real gv, chB = real bv, count = w\<rparr>) es"

text \<open>A random source that always draws the same number.\<close>

definition constantRandom :: "real \<Rightarrow> random" where
  "constantRandom x = (\<lambda>i. x)"

text \<open>
  A histogram of 32 bins a channel whose counts add up to \<open>n\<close> in each channel.
\<close>

definition histOk :: "Histogram \<Rightarrow> nat \<Rightarrow> bool" where
  "histOk h n = (length (histR h) = 32 \<and> length (histG h) = 32 \<and> length (histB h) = 32 \<and>
     sum_list (map binCount (histR h)) = n \<and> sum_list (map binCount (histG h)) = n \<and>
     sum_list (map binCount (histB h)) = n)"









section \<open>Properties of the colour keys\<close>


lemma digit_cases: "d < 10 \<Longrightarrow> d \<in> {0, 1, 2, 3, 4, 5, 6, 7, 8, 9::nat}"
  by auto

lemma digitChar_props:
  assumes "d < 10"
  shows "isDigit (digitChar d)" and "digitValue (digitChar d) = d"
  using digit_cases [OF assms] by (auto simp: isDigit_def digitValue_def digitChar_def)

lemma isDigit_plain:
  "isDigit c \<Longrightarrow> \<not> isWhiteSpace c \<and> c \<noteq> CHR ''+'' \<and> c \<noteq> CHR ''-'' \<and> c \<noteq> CHR '',''"
  by (auto simp: isDigit_def isWhiteSpace_def)

lemma showNat_digits: "\<forall>c \<in> set (showNat n). isDigit c"
proof (induction n rule: showNat.induct)
  case (1 n)
  show ?case
  proof (cases "n < 10")
    case True
    then show ?thesis by (simp add: showNat.simps [of n] digitChar_props)
  next
    case False
    with 1 show ?thesis by (simp add: showNat.simps [of n] digitChar_props)
  qed
qed

lemma showNat_nonempty: "showNat n \<noteq> []"
  by (simp add: showNat.simps [of n])

lemma showNat_value: "foldl (\<lambda>acc c. acc * 10 + digitValue c) 0 (showNat n) = n"
proof (induction n rule: showNat.induct)
  case (1 n)
  show ?case
  proof (cases "n < 10")
    case True
    then show ?thesis by (simp add: showNat.simps [of n] digitChar_props)
  next
    case False
    with 1 show ?thesis by (simp add: showNat.simps [of n] digitChar_props)
  qed
qed

lemma parseInt_showNat: "parseInt (showNat n) = Some (int n)"
proof -
  obtain c cs where cs: "showNat n = c # cs"
    using showNat_nonempty [of n] by (cases "showNat n") auto
  have dig: "isDigit c" "\<forall>x \<in> set cs. isDigit x" using showNat_digits [of n] cs by simp_all
  then have c: "\<not> isWhiteSpace c" "c \<noteq> CHR ''+''" "c \<noteq> CHR ''-''"
    using isDigit_plain [of c] by auto
  have tw: "takeWhile isDigit cs = cs"
    using dig(2) by (simp only: takeWhile_eq_all_conv)
  have "parseInt (c # cs) = Some (int (foldl (\<lambda>acc c. acc * 10 + digitValue c) 0 (c # cs)))"
    using c dig(1) by (simp add: parseInt_def Let_def tw)
  then show ?thesis
    using showNat_value [of n] by (simp only: cs)
qed

lemma split_comma_plain: "CHR '','' \<notin> set xs \<Longrightarrow> split_comma xs = [xs]"
  by (induction xs) auto

lemma split_comma_append:
  "CHR '','' \<notin> set xs \<Longrightarrow> split_comma (xs @ CHR '','' # rest) = xs # split_comma rest"
proof (induction xs)
  case Nil
  then show ?case by simp
next
  case (Cons x xs)
  then show ?case by (cases "split_comma rest") auto
qed

lemma showNat_no_comma: "CHR '','' \<notin> set (showNat n)"
  using showNat_digits [of n] isDigit_plain by blast

lemma parseEntry_colorKey:
  "parseEntry (colorKey (Some rv) (Some gv) (Some bv), w)
     = Some \<lparr>chR = real rv, chG = real gv, chB = real bv, count = w\<rparr>"
  by (simp add: parseEntry_def colorKey_def showChannel_def split_comma_append split_comma_plain
      showNat_no_comma parseInt_showNat)


lemma parse_countsOf: "List.map_filter parseEntry (countsOf es) = pointsOf es"
  by (induction es) (auto simp: countsOf_def pointsOf_def parseEntry_colorKey List.map_filter_simps)

section \<open>Properties of the dominant colours\<close>


lemma lastOpt_Some: "ds \<noteq> [] \<Longrightarrow> \<exists>d. lastOpt ds = Some d"
  by (induction ds rule: lastOpt.induct) auto

lemma lastOpt_mem: "lastOpt ds = Some d \<Longrightarrow> d \<in> set ds"
  by (induction ds rule: lastOpt.induct) auto

lemma pickLoop_mem: "pickLoop zs rand = Some d \<Longrightarrow> d \<in> fst ` set zs"
  by (induction zs rand rule: pickLoop.induct) (auto split: if_splits)

lemma pickOrLast_Some: "ds \<noteq> [] \<Longrightarrow> \<exists>d. pickOrLast ds ws rand = Some d"
  using lastOpt_Some [of ds] by (auto simp: pickOrLast_def split: option.splits)

lemma pickOrLast_mem: "pickOrLast ds ws rand = Some d \<Longrightarrow> d \<in> set ds"
proof -
  assume p: "pickOrLast ds ws rand = Some d"
  show "d \<in> set ds"
  proof (cases "pickLoop (zip ds ws) rand")
    case None
    with p show ?thesis by (simp add: pickOrLast_def lastOpt_mem)
  next
    case (Some e)
    with p have "d \<in> fst ` set (zip ds ws)" using pickLoop_mem [of "zip ds ws" rand d]
      by (simp add: pickOrLast_def)
    then show ?thesis by (auto dest: set_zip_leftD)
  qed
qed

lemma seedLoop_Inr:
  "ds \<noteq> [] \<Longrightarrow> \<exists>cents n'. seedLoop ds k c0 cs rnd n = Inr (cents, n') \<and>
           length cents = max (length cs + 1) k \<and>
           set cents \<subseteq> insert c0 (set cs \<union> pointColor ` set ds)"
proof (induction ds k c0 cs rnd n rule: seedLoop.induct)
  case (1 ds k c0 cs rnd n)
  show ?case
  proof (cases "length (c0 # cs) < k")
    case False
    then show ?thesis by (auto simp: seedLoop.simps [of ds k c0 cs])
  next
    case lt: True
    define distances where
      "distances = map (\<lambda>d. dbl_mul (nearestDistance d c0 cs) (Fin (count d))) ds"
    define rand where "rand = dbl_mul (Fin (rnd n)) (foldl dbl_add (Fin 0) distances)"
    obtain sel where sel: "pickOrLast ds distances rand = Some sel"
      using pickOrLast_Some [OF "1.prems"] by blast
    have mem: "sel \<in> set ds" using pickOrLast_mem [OF sel] .
    from "1.IH" [OF lt refl refl refl sel [unfolded rand_def distances_def] "1.prems"]
    obtain cents n' where r:
      "seedLoop ds k c0 (cs @ [pointColor sel]) rnd (n + 1) = Inr (cents, n')"
      "length cents = max (length (cs @ [pointColor sel]) + 1) k"
      "set cents \<subseteq> insert c0 (set (cs @ [pointColor sel]) \<union> pointColor ` set ds)"
      by blast
    have "seedLoop ds k c0 cs rnd n = Inr (cents, n')"
      using lt sel r(1) by (simp add: seedLoop.simps [of ds k c0 cs] distances_def rand_def Let_def)
    moreover have "length cents = max (length cs + 1) k" using r(2) lt by simp
    moreover have "set cents \<subseteq> insert c0 (set cs \<union> pointColor ` set ds)"
      using r(3) mem by auto
    ultimately show ?thesis by blast
  qed
qed


lemma nearestLoop_less:
  "best < i + length cs \<Longrightarrow> nearestLoop d cs i best bd < i + length cs"
  by (induction d cs i best bd rule: nearestLoop.induct) (auto split: if_splits)

lemma nearestLoop_bound: "cs \<noteq> [] \<Longrightarrow> nearestLoop d cs 0 0 PosInf < length cs"
  using nearestLoop_less [of 0 0 cs d PosInf] by (cases cs) auto

lemma assignLoop_Inr:
  "centroids \<noteq> [] \<Longrightarrow> length sums0 = length centroids \<Longrightarrow>
     \<exists>out. assignLoop ds centroids sums0 = Inr out \<and> length out = length centroids"
proof (induction ds arbitrary: sums0)
  case Nil
  then show ?case by simp
next
  case (Cons d ds)
  from nearestLoop_bound [OF Cons.prems(1)] Cons.prems(2)
  have b: "nearestLoop d centroids 0 0 PosInf < length sums0" by simp
  from Cons.IH [OF Cons.prems(1), of "sums0[nearestLoop d centroids 0 0 PosInf := addPoint d (sums0 ! nearestLoop d centroids 0 0 PosInf)]"]
    Cons.prems(2) b
  show ?case by (simp add: Let_def)
qed

lemma reseed_index:
  assumes "0 \<le> x" "x < 1" "ds \<noteq> []"
  shows "0 \<le> \<lfloor>x * real (length ds)\<rfloor> \<and> nat \<lfloor>x * real (length ds)\<rfloor> < length ds"
proof -
  have pos: "0 < real (length ds)" using assms(3) by simp
  have "x * real (length ds) < real (length ds)"
    using assms(2) pos by simp
  then have "\<lfloor>x * real (length ds)\<rfloor> < int (length ds)"
    by (simp add: floor_less_iff)
  moreover have "0 \<le> \<lfloor>x * real (length ds)\<rfloor>"
    using assms(1) by simp
  ultimately show ?thesis by (simp add: nat_less_iff)
qed

lemma updateLoop_Inr:
  "randomOk rnd \<Longrightarrow> ds \<noteq> [] \<Longrightarrow>
     \<exists>out conv n'. updateLoop ds zs rnd n = Inr (out, conv, n') \<and> length out = length zs"
proof (induction ds zs rnd n rule: updateLoop.induct)
  case (1 ds rnd n)
  then show ?case by auto
next
  case (2 ds c s rest rnd n)
  show ?case
  proof (cases "js_gt (weight s) (Fin 0)")
    case True
    from "2.IH"(1) [OF True refl refl "2.prems"] True show ?thesis
      by (auto simp: Let_def)
  next
    case False
    from "2.prems" have r: "0 \<le> rnd n" "rnd n < 1" by (simp_all add: randomOk_def)
    note idx = reseed_index [OF r "2.prems"(2)]
    from "2.IH"(2) [OF False refl _ "2.prems"] idx False show ?thesis
      by (auto simp: Let_def)
  qed
qed

lemma kMeansLoop_Inr:
  "randomOk rnd \<Longrightarrow> ds \<noteq> [] \<Longrightarrow> centroids \<noteq> [] \<Longrightarrow> length ws = length centroids \<Longrightarrow>
     \<exists>cs' ws' n'. kMeansLoop m ds centroids ws rnd n = Inr (cs', ws', n') \<and>
        length cs' = length centroids \<and> length ws' = length centroids"
proof (induction m arbitrary: centroids ws n)
  case 0
  then show ?case by simp
next
  case (Suc m)
  obtain sm where sm: "assignLoop ds centroids
             (replicate (length centroids)
                \<lparr>sumR = Fin 0, sumG = Fin 0, sumB = Fin 0, weight = Fin 0\<rparr>) = Inr sm"
     "length sm = length centroids"
    using assignLoop_Inr [OF Suc.prems(3), of "replicate (length centroids) \<lparr>sumR = Fin 0, sumG = Fin 0, sumB = Fin 0, weight = Fin 0\<rparr>" ds]
    by auto
  obtain out conv n' where up: "updateLoop ds (zip centroids sm) rnd n = Inr (out, conv, n')"
      "length out = length (zip centroids sm)"
    using updateLoop_Inr [OF Suc.prems(1,2), of "zip centroids sm" n] by blast
  have len: "length out = length centroids" using up(2) sm(2) by simp
  show ?case
  proof (cases conv)
    case True
    with sm up len show ?thesis by simp
  next
    case False
    have ne: "map fst out \<noteq> []" using len Suc.prems(3) by auto
    from Suc.IH [OF Suc.prems(1,2) ne, of "map snd out" n'] len sm up False
    show ?thesis by simp
  qed
qed

lemma initialize_Inr:
  "ds \<noteq> [] \<Longrightarrow> \<exists>cents n'. initializeCentroidsKMeansPP ds k rnd n = Inr (cents, n') \<and>
      length cents = max 1 k \<and> set cents \<subseteq> pointColor ` set ds"
proof -
  assume ne: "ds \<noteq> []"
  obtain d where d: "pickOrLast ds (map (\<lambda>d. Fin (count d)) ds)
        (dbl_mul (Fin (rnd n)) (foldl (\<lambda>s d. dbl_add s (Fin (count d))) (Fin 0) ds)) = Some d"
    using pickOrLast_Some [OF ne] by blast
  have mem: "d \<in> set ds" using pickOrLast_mem [OF d] .
  from seedLoop_Inr [OF ne, of k "pointColor d" "[]" rnd "n + 1"] d mem show ?thesis
    by (auto simp: initializeCentroidsKMeansPP_def)
qed

lemma kMeansClustering_Inr:
  "randomOk rnd \<Longrightarrow> ds \<noteq> [] \<Longrightarrow> centroids \<noteq> [] \<Longrightarrow>
     \<exists>cs' ws' n'. kMeansClustering ds centroids m rnd n = Inr (cs', ws', n') \<and>
        length cs' = length centroids \<and> length ws' = length centroids"
  unfolding kMeansClustering_def by (rule kMeansLoop_Inr) simp_all

lemma insertSorted_length: "length (insertSorted cmp x ys) = Suc (length ys)"
  by (induction ys) auto

lemma sortWith_length: "length (sortWith cmp xs) = length xs"
  by (induction xs) (simp_all add: sortWith_def insertSorted_length)

lemma sortClusters_length: "length (sortClusters cl) = length cl"
  by (simp add: sortClusters_def sortWith_length)

subsection \<open>Weights that do not overflow\<close>

lemma overflowBound_pos: "0 < overflowBound"
  by (simp add: overflowBound_def)


























text \<open>
  C3, as the code has it. For a requested count of at least 1 (and a random source in
  [0, 1)) the call succeeds with at most \<open>k\<close> colours, and when the map holds at most \<open>k\<close>
  data points the result is exactly their colours, in the order of the map; in particular
  a map written for the colours \<open>es\<close> gives back exactly \<open>es\<close>.
\<close>

theorem extractDominantColors_at_most_k:
  assumes "randomOk rnd" and "1 \<le> k"
  shows "(\<exists>cols. extractDominantColors colorCounts k rnd = Inr cols \<and> length cols \<le> k \<and>
            (length (List.map_filter parseEntry colorCounts) \<le> k \<longrightarrow>
               cols = map pointColor (List.map_filter parseEntry colorCounts))) \<and>
         (length es \<le> k \<longrightarrow>
            extractDominantColors (countsOf es) k rnd
              = Inr (map (\<lambda>((rv, gv, bv), w).
                        \<lparr>chR = Fin (real rv), chG = Fin (real gv), chB = Fin (real bv)\<rparr>) es))"
proof
  define ds where "ds = List.map_filter parseEntry colorCounts"
  show "\<exists>cols. extractDominantColors colorCounts k rnd = Inr cols \<and> length cols \<le> k \<and>
            (length (List.map_filter parseEntry colorCounts) \<le> k \<longrightarrow>
               cols = map pointColor (List.map_filter parseEntry colorCounts))"
  proof (cases "length ds \<le> k")
    case True
    then show ?thesis
      by (auto simp: extractDominantColors_def ds_def [symmetric])
  next
    case False
    with assms(2) have ne: "ds \<noteq> []" and len0: "length ds \<noteq> 0" by auto
    obtain centroids n where init: "initializeCentroidsKMeansPP ds k rnd 0 = Inr (centroids, n)"
        and clen: "length centroids = max 1 k"
      using initialize_Inr [OF ne] by blast
    have cne: "centroids \<noteq> []" using clen by auto
    obtain fc cw n' where km: "kMeansClustering ds centroids 10 rnd n = Inr (fc, cw, n')"
        and l1: "length fc = length centroids" and l2: "length cw = length centroids"
      using kMeansClustering_Inr [OF assms(1) ne cne] by blast
    have "length (sortClusters (zip fc cw)) = length centroids"
      using l1 l2 by (simp add: sortClusters_length)
    with init km False len0 clen assms(2) show ?thesis
      by (simp add: extractDominantColors_def ds_def [symmetric])
  qed
next
  show "length es \<le> k \<longrightarrow>
            extractDominantColors (countsOf es) k rnd
              = Inr (map (\<lambda>((rv, gv, bv), w).
                        \<lparr>chR = Fin (real rv), chG = Fin (real gv), chB = Fin (real bv)\<rparr>) es)"
    by (auto simp: extractDominantColors_def parse_countsOf pointsOf_def rgbOf_def Let_def
        pointColor_def fin_color_def split: prod.splits)
qed

theorem extractDominantColors_at_most_k_witness:
  "randomOk (constantRandom (1 / 2)) \<and> (1::nat) \<le> 2 \<and>
   extractDominantColors [(''255,0,0'', 2), (''0,255,0'', 1), (''0,0,255'', 1)] 2
       (constantRandom (1 / 2))
     = Inr [\<lparr>chR = Fin 170, chG = Fin 0, chB = Fin 85\<rparr>, \<lparr>chR = Fin 0, chG = Fin 255, chB = Fin 0\<rparr>] \<and>
   length [((255::nat, 0::nat, 0::nat), 2 :: real), ((0, 255, 0), 1)] \<le> 2 \<and>
   extractDominantColors (countsOf [((255, 0, 0), 2), ((0, 255, 0), 1)]) 2
       (constantRandom (1 / 2))
     = Inr [\<lparr>chR = Fin 255, chG = Fin 0, chB = Fin 0\<rparr>, \<lparr>chR = Fin 0, chG = Fin 255, chB = Fin 0\<rparr>]"
proof -
  have r: "randomOk (constantRandom (1 / 2))"
    by (simp add: randomOk_def constantRandom_def)
  have k: "(1::nat) \<le> 2" by simp
  have ev: "extractDominantColors [(''255,0,0'', 2), (''0,255,0'', 1), (''0,0,255'', 1)] 2
       (constantRandom (1 / 2))
     = Inr [\<lparr>chR = Fin 170, chG = Fin 0, chB = Fin 85\<rparr>, \<lparr>chR = Fin 0, chG = Fin 255, chB = Fin 0\<rparr>]"
    by code_simp
  from extractDominantColors_at_most_k [OF r k, of "[]" "[((255, 0, 0), 2), ((0, 255, 0), 1)]"]
  have "extractDominantColors (countsOf [((255, 0, 0), 2), ((0, 255, 0), 1)]) 2
       (constantRandom (1 / 2))
     = Inr [\<lparr>chR = Fin 255, chG = Fin 0, chB = Fin 0\<rparr>, \<lparr>chR = Fin 0, chG = Fin 255, chB = Fin 0\<rparr>]"
    by simp
  with r k ev show ?thesis by simp
qed

text \<open>
  The claim as the specification states it (at most \<open>k\<close> colours for every requested
  count) fails at the count 0: the seeding pushes its first centroid before it looks at
  \<open>k\<close>, so one colour comes back.
\<close>

theorem extractDominantColors_zero_count:
  "extractDominantColors [(''10,20,30'', 1)] 0 (constantRandom 0)
     = Inr [\<lparr>chR = Fin 10, chG = Fin 20, chB = Fin 30\<rparr>] \<and>
   \<not> length [\<lparr>chR = Fin 10, chG = Fin 20, chB = Fin (30::real)\<rparr>] \<le> 0"
proof
  show "extractDominantColors [(''10,20,30'', 1)] 0 (constantRandom 0)
     = Inr [\<lparr>chR = Fin 10, chG = Fin 20, chB = Fin 30\<rparr>]"
    by code_simp
  show "\<not> length [\<lparr>chR = Fin 10, chG = Fin 20, chB = Fin (30::real)\<rparr>] \<le> 0" by simp
qed

section \<open>Properties of the distinct palette\<close>


lemma getSaturationNum_fin: "getSaturationNum (fin_color c) = Fin (getSaturation c)"
  by (simp add: getSaturationNum_def getSaturation_def fin_color_def js_max_def js_min_def
      js_eq_def js_sub_def js_div_def Let_def max_def min_def)

lemma bySaturation_fin:
  "js_gt (bySaturation (fin_color x) (fin_color y)) (Fin 0) \<longleftrightarrow> getSaturation x < getSaturation y"
  by (simp add: bySaturation_def getSaturationNum_fin js_sub_def js_gt_def)

lemma insertSorted_fin:
  "insertSorted bySaturation (fin_color x) (map fin_color ys)
     = map fin_color (insort_key (\<lambda>c. - getSaturation c) x ys)"
  by (induction ys) (auto simp: bySaturation_fin)

lemma sortWith_fin:
  "sortWith bySaturation (map fin_color cs) = map fin_color (sort_key (\<lambda>c. - getSaturation c) cs)"
  by (induction cs) (simp_all add: sortWith_def insertSorted_fin)

lemma sum_squares_nonneg: "\<not> (x::real) * x + y * y + z * z < 0"
  by (simp add: not_less add_nonneg_nonneg)

lemma colorDistance_fin: "colorDistance (fin_color c1) (fin_color c2) = Fin (spec_distance c1 c2)"
  by (simp add: colorDistance_def spec_distance_def fin_color_def js_sub_def Let_def
      power2_eq_square sum_squares_nonneg)

lemma minDistanceLoop_fin:
  "minDistanceLoop (fin_color c) (map fin_color sel) (Fin m)
     = Fin (fold min (map (spec_distance c) sel) m)"
  by (induction sel arbitrary: m) (simp_all add: colorDistance_fin min_def)

lemma minDistanceLoop_start:
  "sel \<noteq> [] \<Longrightarrow>
     minDistanceLoop (fin_color c) (map fin_color sel) PosInf = Fin (spec_minDistance sel c)"
proof (cases sel)
  case Nil
  assume "sel \<noteq> []"
  with Nil show ?thesis by simp
next
  case (Cons s rest)
  have "Min (set (spec_distance c s # map (spec_distance c) rest))
          = fold min (map (spec_distance c) rest) (spec_distance c s)"
    by (rule Min.set_eq_fold)
  with Cons show ?thesis
    by (simp add: colorDistance_fin minDistanceLoop_fin spec_minDistance_def)
qed

text \<open>The first index at which a list of numbers attains its maximum.\<close>

lemma candidateLoop_fin:
  assumes "sel \<noteq> []"
  shows "candidateLoop (map fin_color cs) (map fin_color sel) i (Some j) (Fin m)
     = (if cs = [] \<or> Max (set (map (spec_minDistance sel) cs)) \<le> m then Some j
        else Some (i + length (takeWhile
               (\<lambda>c. spec_minDistance sel c \<noteq> Max (set (map (spec_minDistance sel) cs))) cs)))"
proof (induction cs arbitrary: i j m)
  case Nil
  then show ?case by simp
next
  case (Cons c cs)
  let ?md = "spec_minDistance sel"
  have step: "minDistanceLoop (fin_color c) (map fin_color sel) PosInf = Fin (?md c)"
    by (rule minDistanceLoop_start [OF assms])
  show ?case
  proof (cases "cs = []")
    case True
    then show ?thesis by (simp add: step js_gt_def)
  next
    case False
    define M where "M = Max (set (map ?md cs))"
    define t where "t = length (takeWhile (\<lambda>x. ?md x \<noteq> M) cs)"
    have mx: "Max (set (map ?md (c # cs))) = max (?md c) M"
      using False by (simp add: M_def)
    have lhs: "candidateLoop (map fin_color (c # cs)) (map fin_color sel) i (Some j) (Fin m)
        = (if m < ?md c then (if M \<le> ?md c then Some i else Some (Suc i + t))
           else (if M \<le> m then Some j else Some (Suc i + t)))"
      using False by (simp add: step js_gt_def Cons.IH M_def t_def)
    have rhs: "(if c # cs = [] \<or> Max (set (map ?md (c # cs))) \<le> m then Some j
        else Some (i + length (takeWhile
               (\<lambda>x. ?md x \<noteq> Max (set (map ?md (c # cs)))) (c # cs))))
        = (if max (?md c) M \<le> m then Some j
           else if ?md c = max (?md c) M then Some i
           else Some (Suc i + length (takeWhile (\<lambda>x. ?md x \<noteq> max (?md c) M) cs)))"
      by (simp only: mx) simp
    show ?thesis
      unfolding lhs rhs by (auto simp: max_def t_def)
  qed
qed

lemma nextCandidate_fin:
  assumes "sel \<noteq> []" and "cs \<noteq> []"
  shows "nextCandidate (map fin_color sel) (map fin_color cs) = Some (spec_farthest sel cs)"
proof -
  obtain c rest where cs: "cs = c # rest" using assms(2) by (cases cs) auto
  let ?md = "spec_minDistance sel"
  have step: "minDistanceLoop (fin_color c) (map fin_color sel) PosInf = Fin (?md c)"
    by (rule minDistanceLoop_start [OF assms(1)])
  have "nextCandidate (map fin_color sel) (map fin_color cs)
          = candidateLoop (map fin_color rest) (map fin_color sel) 1 (Some 0) (Fin (?md c))"
    by (simp add: nextCandidate_def cs step js_gt_def)
  also have "\<dots> = Some (spec_farthest sel cs)"
  proof (cases "rest = []")
    case True
    then show ?thesis by (simp add: cs spec_farthest_def)
  next
    case False
    define M where "M = Max (set (map ?md rest))"
    define t where "t = length (takeWhile (\<lambda>x. ?md x \<noteq> M) rest)"
    have mx: "Max (set (map ?md (c # rest))) = max (?md c) M"
      using False by (simp add: M_def)
    have sf: "spec_farthest sel (c # rest)
        = (if ?md c = max (?md c) M then 0
           else Suc (length (takeWhile (\<lambda>x. ?md x \<noteq> max (?md c) M) rest)))"
      unfolding spec_farthest_def Let_def by (simp only: mx) simp
    have cl: "candidateLoop (map fin_color rest) (map fin_color sel) 1 (Some 0) (Fin (?md c))
        = (if M \<le> ?md c then Some 0 else Some (Suc t))"
      using False by (simp add: candidateLoop_fin [OF assms(1)] M_def t_def)
    show ?thesis
      unfolding cs sf cl by (auto simp: max_def t_def)
  qed
  finally show ?thesis .
qed


lemma removeAt_map: "removeAt i (map f xs) = map f (removeAt i xs)"
  by (simp add: removeAt_def take_map drop_map)

lemma selectLoop_fin:
  "sel \<noteq> [] \<Longrightarrow> n - length sel = picks \<Longrightarrow>
     selectLoop (map fin_color sel) (map fin_color cs) n
       = map fin_color (spec_greedy picks sel cs)"
proof (induction picks sel cs rule: spec_greedy.induct)
  case (1 selected candidates)
  then show ?case by (simp add: selectLoop.simps [of "map fin_color selected"])
next
  case (2 picks selected)
  then show ?case by (simp add: selectLoop.simps [of "map fin_color selected"])
next
  case (3 picks selected c rest)
  let ?cs = "c # rest"
  let ?i = "spec_farthest selected ?cs"
  have lt: "length selected < n" using "3.prems"(2) by simp
  have nc: "nextCandidate (map fin_color selected) (map fin_color ?cs) = Some ?i"
    by (rule nextCandidate_fin [OF "3.prems"(1)]) simp
  from nextCandidate_less [OF nc] have il: "?i < length ?cs" by simp
  have ih: "selectLoop (map fin_color (selected @ [?cs ! ?i])) (map fin_color (removeAt ?i ?cs)) n
              = map fin_color (spec_greedy picks (selected @ [?cs ! ?i]) (removeAt ?i ?cs))"
    using "3.prems"(2) by (intro "3.IH" [OF refl]) simp_all
  have "selectLoop (map fin_color selected) (map fin_color ?cs) n
          = selectLoop (map fin_color selected @ [map fin_color ?cs ! ?i])
              (removeAt ?i (map fin_color ?cs)) n"
    using lt nc by (subst selectLoop.simps) simp
  also have "map fin_color selected @ [map fin_color ?cs ! ?i]
               = map fin_color (selected @ [?cs ! ?i])"
    using nth_map [OF il, of fin_color] by simp
  also have "removeAt ?i (map fin_color ?cs) = map fin_color (removeAt ?i ?cs)"
    by (rule removeAt_map)
  finally show ?case
    by (simp only: ih spec_greedy.simps Let_def)
qed


lemma selectDistinct_spec:
  "selectDistinct (map fin_color candidates) distinctCount
     = map fin_color (spec_distinct candidates distinctCount)"
proof (cases "length candidates \<le> distinctCount")
  case True
  then show ?thesis by (simp add: selectDistinct_def spec_distinct_def)
next
  case False
  show ?thesis
  proof (cases "sort_key (\<lambda>c. - getSaturation c) candidates")
    case Nil
    with False show ?thesis
      by (simp add: selectDistinct_def spec_distinct_def sortWith_fin)
  next
    case (Cons seed others)
    have "selectLoop [fin_color seed] (map fin_color others) distinctCount
            = map fin_color (spec_greedy (distinctCount - 1) [seed] others)"
      using selectLoop_fin [where sel = "[seed]" and n = distinctCount
          and picks = "distinctCount - 1" and cs = others] by simp
    with False Cons show ?thesis
      by (simp add: selectDistinct_def spec_distinct_def sortWith_fin)
  qed
qed


text \<open>
  C6. Whatever candidate palette of colours with finite channels the median cut returns
  to \<^verbatim>\<open>extractDistinctColorPalette\<close>, and for every target \<open>distinctCount\<close>, the result is
  the selection of the specification: the palette unchanged when it has at most
  \<open>distinctCount\<close> colours, otherwise the greedy farthest-point selection from the
  candidate of highest saturation, the first index winning a tie, until \<open>distinctCount\<close>
  colours are selected or no candidate is left.
\<close>

theorem extractDistinctColorPalette_greedy:
  assumes "extractColorPalette canvas (distinctCount * candidateSizeFactor)
             = Inr (map fin_color candidates)"
  shows "extractDistinctColorPalette canvas distinctCount candidateSizeFactor
           = Inr (map fin_color (spec_distinct candidates distinctCount))"
  using assms by (simp add: extractDistinctColorPalette_def selectDistinct_spec)

text \<open>
  Four colours, three wanted: the two fully saturated colours first, then the grey, which
  is farther from both than the remaining red.
\<close>

theorem extractDistinctColorPalette_greedy_witness:
  "extractColorPalette
       \<lparr>width = 2, height = 2,
        imageData = Some [10, 10, 10, 255, 200, 0, 0, 255, 190, 10, 10, 255, 0, 0, 250, 255]\<rparr>
       (3 * 2)
     = Inr (map fin_color
              [\<lparr>chR = 10, chG = 10, chB = 10\<rparr>, \<lparr>chR = 200, chG = 0, chB = 0\<rparr>,
               \<lparr>chR = 190, chG = 10, chB = 10\<rparr>, \<lparr>chR = 0, chG = 0, chB = 250\<rparr>]) \<and>
   extractDistinctColorPalette
       \<lparr>width = 2, height = 2,
        imageData = Some [10, 10, 10, 255, 200, 0, 0, 255, 190, 10, 10, 255, 0, 0, 250, 255]\<rparr>
       3 2
     = Inr (map fin_color
              [\<lparr>chR = 200, chG = 0, chB = 0\<rparr>, \<lparr>chR = 0, chG = 0, chB = 250\<rparr>,
               \<lparr>chR = 10, chG = 10, chB = 10\<rparr>])"
proof -
  have c: "extractColorPalette
       \<lparr>width = 2, height = 2,
        imageData = Some [10, 10, 10, 255, 200, 0, 0, 255, 190, 10, 10, 255, 0, 0, 250, 255]\<rparr>
       (3 * 2)
     = Inr (map fin_color
              [\<lparr>chR = 10, chG = 10, chB = 10\<rparr>, \<lparr>chR = 200, chG = 0, chB = 0\<rparr>,
               \<lparr>chR = 190, chG = 10, chB = 10\<rparr>, \<lparr>chR = 0, chG = 0, chB = 250\<rparr>])"
    by code_simp
  have s: "spec_distinct
        [\<lparr>chR = 10, chG = 10, chB = 10\<rparr>, \<lparr>chR = 200, chG = 0, chB = 0\<rparr>,
         \<lparr>chR = 190, chG = 10, chB = 10\<rparr>, \<lparr>chR = 0, chG = 0, chB = 250\<rparr>] 3
     = [\<lparr>chR = 200, chG = 0, chB = 0\<rparr>, \<lparr>chR = 0, chG = 0, chB = 250\<rparr>,
         \<lparr>chR = 10, chG = 10, chB = 10\<rparr>]"
    by (simp add: spec_distinct_def getSaturation_def spec_farthest_def spec_minDistance_def
        spec_distance_def removeAt_def numeral_3_eq_3)
  from extractDistinctColorPalette_greedy [OF c] c show ?thesis
    by (simp only: s simp_thms)
qed

section \<open>Properties of the median cut\<close>

lemma medianCutLoop_length:
  "length (fst (medianCutLoop boxes p lg)) \<le> max (length boxes) p"
proof (induction boxes p lg rule: medianCutLoop.induct)
  case (1 boxes paletteSize splitLog)
  show ?case
  proof (cases "length boxes < paletteSize")
    case False
    then show ?thesis by (simp add: medianCutLoop.simps [of boxes])
  next
    case lt: True
    show ?thesis
    proof (cases "boxToSplit boxes")
      case None
      with lt show ?thesis by (simp add: medianCutLoop.simps [of boxes])
    next
      case (Some i)
      obtain box1 box2 where sp: "splitBox (boxes ! i) = (box1, box2)"
        by (cases "splitBox (boxes ! i)")
      have len: "length (splice2 i box1 box2 boxes) = length boxes + 1"
        using boxToSplit_less [OF Some] by (simp add: splice2_def)
      from "1.IH" [OF lt Some sp [symmetric]]
      have "length (fst (medianCutLoop (splice2 i box1 box2 boxes) paletteSize
                (splitLog @ [boxes ! i])))
              \<le> max (length (splice2 i box1 box2 boxes)) paletteSize" .
      with lt Some sp len show ?thesis
        by (simp add: medianCutLoop.simps [of boxes])
    qed
  qed
qed

lemma boxToSplit_two: "boxToSplit boxes = Some i \<Longrightarrow> 2 \<le> length (data (boxes ! i))"
  by (auto simp: boxToSplit_def split: option.splits if_splits)

lemma medianCutLoop_log:
  "(\<forall>bx \<in> set lg. 2 \<le> length (data bx)) \<Longrightarrow>
   (\<forall>bx \<in> set (snd (medianCutLoop boxes p lg)). 2 \<le> length (data bx))"
proof (induction boxes p lg rule: medianCutLoop.induct)
  case (1 boxes paletteSize splitLog)
  show ?case
  proof (cases "length boxes < paletteSize")
    case False
    with "1.prems" show ?thesis by (simp add: medianCutLoop.simps [of boxes])
  next
    case lt: True
    show ?thesis
    proof (cases "boxToSplit boxes")
      case None
      with lt "1.prems" show ?thesis by (simp add: medianCutLoop.simps [of boxes])
    next
      case (Some i)
      obtain box1 box2 where sp: "splitBox (boxes ! i) = (box1, box2)"
        by (cases "splitBox (boxes ! i)")
      have "\<forall>bx \<in> set (splitLog @ [boxes ! i]). 2 \<le> length (data bx)"
        using "1.prems" boxToSplit_two [OF Some] by simp
      from "1.IH" [OF lt Some sp [symmetric] this] lt Some sp show ?thesis
        by (simp add: medianCutLoop.simps [of boxes])
    qed
  qed
qed

lemma createColorBox_single:
  "createColorBox [p] =
     \<lparr> data = [p], rMin = Fin (chR p), rMax = Fin (chR p), gMin = Fin (chG p),
       gMax = Fin (chG p), bMin = Fin (chB p), bMax = Fin (chB p) \<rparr>"
  by (simp add: createColorBox_def boxStep_def js_gt_def)

lemma boxToSplit_single: "boxToSplit [createColorBox [p]] = None"
  by (simp add: boxToSplit_def selectBox_def createColorBox_single boxRange_def js_sub_def
      js_max_def js_gt_def)

lemma medianCutLoop_single:
  "medianCutLoop [createColorBox [p]] n [] = ([createColorBox [p]], [])"
  by (subst medianCutLoop.simps) (simp add: boxToSplit_single)

lemma data_createColorBox: "data (createColorBox ds) = ds"
proof -
  have "data (fold boxStep ps bx) = data bx" for ps bx
    by (induction ps arbitrary: bx) (simp_all add: boxStep_def)
  then show ?thesis by (simp add: createColorBox_def)
qed

lemma medianCutQuantize_one: "medianCutQuantize [p] n = [computeAverageColor [p]]"
  by (simp add: medianCutQuantize_def medianCutLoop_single data_createColorBox)

lemma round_half_up_nat: "round_half_up (real n) = real n"
  by (simp add: round_half_up_def floor_eq_iff)

lemma medianCutQuantize_length:
  "1 \<le> paletteSize \<Longrightarrow> length (medianCutQuantize ds paletteSize) \<le> paletteSize"
  using medianCutLoop_length [of "[createColorBox ds]" paletteSize "[]"]
  by (simp add: medianCutQuantize_def)

text \<open>
  C4, as the code has it. A requested size below 1 still yields one colour for a non-empty
  input (the loop starts from one box), so the bound holds for sizes of at least 1: then
  \<^verbatim>\<open>medianCutQuantize\<close> returns at most \<open>paletteSize\<close> colours, and every box handed to
  \<^verbatim>\<open>splitBox\<close> during the run holds at least two points.
\<close>

theorem medianCutQuantize_bound:
  "1 \<le> paletteSize \<Longrightarrow>
     length (medianCutQuantize ds paletteSize) \<le> paletteSize \<and>
     (\<forall>box \<in> set (medianCutSplits ds paletteSize). 2 \<le> length (data box))"
  using medianCutQuantize_length [of paletteSize ds]
        medianCutLoop_log [of "[]" "[createColorBox ds]" paletteSize]
  by (simp add: medianCutSplits_def)

text \<open>
  Four colours quantised to three: the red axis is split twice, each time a box of two or
  more points.
\<close>

theorem medianCutQuantize_bound_witness:
  "(1::nat) \<le> 3 \<and>
   medianCutQuantize
     [\<lparr>chR = 10, chG = 20, chB = 30, count = 1\<rparr>, \<lparr>chR = 20, chG = 30, chB = 40, count = 2\<rparr>,
      \<lparr>chR = 0, chG = 0, chB = 0, count = 1\<rparr>, \<lparr>chR = 255, chG = 0, chB = 0, count = 1\<rparr>] 3
     = [\<lparr>chR = Fin 5, chG = Fin 10, chB = Fin 15\<rparr>, \<lparr>chR = Fin 20, chG = Fin 30, chB = Fin 40\<rparr>,
        \<lparr>chR = Fin 255, chG = Fin 0, chB = Fin 0\<rparr>] \<and>
   length (medianCutQuantize
     [\<lparr>chR = 10, chG = 20, chB = 30, count = 1\<rparr>, \<lparr>chR = 20, chG = 30, chB = 40, count = 2\<rparr>,
      \<lparr>chR = 0, chG = 0, chB = 0, count = 1\<rparr>, \<lparr>chR = 255, chG = 0, chB = 0, count = 1\<rparr>] 3)
     \<le> 3 \<and>
   list_all (\<lambda>box. 2 \<le> length (data box)) (medianCutSplits
     [\<lparr>chR = 10, chG = 20, chB = 30, count = 1\<rparr>, \<lparr>chR = 20, chG = 30, chB = 40, count = 2\<rparr>,
      \<lparr>chR = 0, chG = 0, chB = 0, count = 1\<rparr>, \<lparr>chR = 255, chG = 0, chB = 0, count = 1\<rparr>] 3)"
proof -
  have ev: "medianCutQuantize
     [\<lparr>chR = 10, chG = 20, chB = 30, count = 1\<rparr>, \<lparr>chR = 20, chG = 30, chB = 40, count = 2\<rparr>,
      \<lparr>chR = 0, chG = 0, chB = 0, count = 1\<rparr>, \<lparr>chR = 255, chG = 0, chB = 0, count = 1\<rparr>] 3
     = [\<lparr>chR = Fin 5, chG = Fin 10, chB = Fin 15\<rparr>, \<lparr>chR = Fin 20, chG = Fin 30, chB = Fin 40\<rparr>,
        \<lparr>chR = Fin 255, chG = Fin 0, chB = Fin 0\<rparr>]"
    by code_simp
  have h: "(1::nat) \<le> 3" by simp
  from medianCutQuantize_bound [OF h] ev show ?thesis
    by (simp only: list_all_iff) simp
qed

text \<open>
  The claim as the specification states it (at most \<open>paletteSize\<close> colours for every
  requested size) fails at the size 0: one point gives one colour.
\<close>

theorem medianCutQuantize_zero_size:
  "\<not> length (medianCutQuantize [\<lparr>chR = 10, chG = 20, chB = 30, count = 1\<rparr>] 0) \<le> 0"
  by (simp add: medianCutQuantize_one)

lemma average_channel:
  assumes "0 \<le> x" and "x \<le> 255" and "0 < w" and "255 * w < overflowBound"
  shows "dbl_div (dbl_add (Fin 0) (dbl_mul (Fin x) (Fin w))) (dbl_add (Fin 0) (Fin w)) = Fin x"
proof -
  have "x * w \<le> 255 * w" using assms(2,3) by (simp add: mult_right_mono)
  then have xw: "x * w < overflowBound" using assms(4) by simp
  have xw0: "0 \<le> x * w" using assms(1,3) by simp
  have "w \<le> 255 * w" using assms(3) by simp
  then have w: "w < overflowBound" using assms(4) by simp
  have "(255::real) < overflowBound" by (simp add: overflowBound_def)
  then have x: "x < overflowBound" using assms(2) by simp
  have m: "dbl_mul (Fin x) (Fin w) = Fin (x * w)"
    using xw xw0 overflowBound_pos by (simp add: dbl_mul_def fl_def)
  have s: "dbl_add (Fin 0) (Fin (x * w)) = Fin (x * w)"
    using xw xw0 overflowBound_pos by (simp add: dbl_add_def fl_def)
  have t: "dbl_add (Fin 0) (Fin w) = Fin w"
    using w assms(3) overflowBound_pos by (simp add: dbl_add_def fl_def)
  have "dbl_div (Fin (x * w)) (Fin w) = Fin x"
    using x assms(1,3) overflowBound_pos by (simp add: dbl_div_def js_div_def fl_def)
  with m s t show ?thesis by simp
qed

text \<open>
  C5, as the code has it. A single colour with integer channels in [0, 255] and a positive
  weight \<open>w\<close> for which \<open>255 * w\<close> does not overflow, quantised to any palette size of at
  least 1, gives back exactly that colour.
\<close>

theorem medianCutQuantize_single_color:
  assumes "rv \<le> (255::nat)" "gv \<le> (255::nat)" "bv \<le> (255::nat)"
    and "0 < w" and "255 * w < overflowBound" and "1 \<le> paletteSize"
  shows "medianCutQuantize [\<lparr>chR = real rv, chG = real gv, chB = real bv, count = w\<rparr>]
           paletteSize
         = [\<lparr>chR = Fin (real rv), chG = Fin (real gv), chB = Fin (real bv)\<rparr>]"
proof -
  have "dbl_div (dbl_add (Fin 0) (dbl_mul (Fin (real rv)) (Fin w))) (dbl_add (Fin 0) (Fin w))
          = Fin (real rv)"
    using average_channel [of "real rv" w] assms by simp
  moreover have "dbl_div (dbl_add (Fin 0) (dbl_mul (Fin (real gv)) (Fin w))) (dbl_add (Fin 0) (Fin w))
          = Fin (real gv)"
    using average_channel [of "real gv" w] assms by simp
  moreover have "dbl_div (dbl_add (Fin 0) (dbl_mul (Fin (real bv)) (Fin w))) (dbl_add (Fin 0) (Fin w))
          = Fin (real bv)"
    using average_channel [of "real bv" w] assms by simp
  ultimately show ?thesis
    by (simp add: medianCutQuantize_one computeAverageColor_def averageSums_def round_half_up_nat)
qed

theorem medianCutQuantize_single_color_witness:
  "(200::nat) \<le> 255 \<and> (100::nat) \<le> 255 \<and> (0::nat) \<le> 255 \<and> (0::real) < 16 \<and>
   255 * 16 < overflowBound \<and> (1::nat) \<le> 5 \<and>
   medianCutQuantize [\<lparr>chR = real 200, chG = real 100, chB = real 0, count = 16\<rparr>] 5
     = [\<lparr>chR = Fin (real 200), chG = Fin (real 100), chB = Fin (real 0)\<rparr>]"
proof -
  have b: "255 * 16 < overflowBound" by (simp add: overflowBound_def)
  from medianCutQuantize_single_color [of 200 100 0 16 5, OF _ _ _ _ b] b show ?thesis by simp
qed

text \<open>
  The claim as the specification states it (for every positive weight) fails where the
  product of a channel and the weight overflows: at the weight \<open>2 ^ 1023\<close> the sums of the
  red and green channels are \<^verbatim>\<open>Infinity\<close>, and so are the channels of the average.
\<close>

theorem medianCutQuantize_overflow:
  "medianCutQuantize [\<lparr>chR = 200, chG = 100, chB = 0, count = 2 ^ 1023\<rparr>] 5
     = [\<lparr>chR = PosInf, chG = PosInf, chB = Fin 0\<rparr>] \<and>
   (0::real) < 2 ^ 1023 \<and> (1::nat) \<le> 5"
  by (simp add: medianCutQuantize_one computeAverageColor_def averageSums_def dbl_add_def
      dbl_mul_def dbl_div_def fl_def overflowBound_def js_div_def round_half_up_def)


section \<open>Properties of the analysis\<close>



lemma extractDominantColors_total:
  assumes "randomOk rnd"
  shows "\<exists>cols. extractDominantColors colorCounts k rnd = Inr cols"
proof -
  define ds where "ds = List.map_filter parseEntry colorCounts"
  show ?thesis
  proof (cases "ds = [] \<or> length ds \<le> k")
    case True
    then show ?thesis by (auto simp: extractDominantColors_def ds_def [symmetric])
  next
    case False
    then have ne: "ds \<noteq> []" by simp
    obtain centroids n where init: "initializeCentroidsKMeansPP ds k rnd 0 = Inr (centroids, n)"
        and clen: "length centroids = max 1 k"
      using initialize_Inr [OF ne] by blast
    have cne: "centroids \<noteq> []" using clen by auto
    obtain fc cw n' where km: "kMeansClustering ds centroids 10 rnd n = Inr (fc, cw, n')"
      using kMeansClustering_Inr [OF assms ne cne] by blast
    with init False show ?thesis
      by (simp add: extractDominantColors_def ds_def [symmetric])
  qed
qed

lemma analyzeImageColors_total:
  assumes "imageData canvas = Some pixels" and "randomOk rnd"
  shows "\<exists>vm. analyzeImageColors dc pc rnd canvas = Inr vm \<and>
           histogram vm = (accHistogram (pixelLoop pixels initialStats))
                             \<lparr>totalPixels := real (length pixels) / 4\<rparr> \<and>
           (\<exists>candidates. extractColorPalette canvas (pc * CANDIDATE_SIZE_FACTOR) = Inr candidates \<and>
              distinctPaletteColors vm = selectDistinct candidates pc)"
proof -
  obtain cols where d: "extractDominantColors (accColorCounts (pixelLoop pixels initialStats)) dc rnd = Inr cols"
    using extractDominantColors_total [OF assms(2)] by blast
  have pal: "\<exists>cs. extractColorPalette canvas m = Inr cs" for m
    using assms(1) by (simp add: extractColorPalette_def Let_def)
  obtain rep where r: "extractColorPalette canvas pc = Inr rep"
    using pal by blast
  obtain cand where c: "extractColorPalette canvas (pc * CANDIDATE_SIZE_FACTOR) = Inr cand"
    using pal by blast
  obtain v where v: "calculateColorVariance canvas = Inr v"
    using assms(1) by (simp add: calculateColorVariance_def Let_def)
  have e: "extractDistinctColorPalette canvas pc CANDIDATE_SIZE_FACTOR = Inr (selectDistinct cand pc)"
    by (simp only: extractDistinctColorPalette_def Let_def c sum.case)
  show ?thesis
    unfolding analyzeImageColors_def Let_def
    by (simp only: assms(1) option.case d r e v c sum.case select_convs update_convs)
      (simp only: sum.inject simp_thms ex_simps, simp)
qed




lemma incrementBin_sum:
  "i < length bins \<Longrightarrow>
     sum_list (map binCount (incrementBin i bins)) = sum_list (map binCount bins) + 1"
  by (simp add: incrementBin_def map_update sum_list_update)

lemma incrementBin_length: "length (incrementBin i bins) = length bins"
  by (simp add: incrementBin_def)

lemma getBinIndex_less: "v \<le> 255 \<Longrightarrow> getBinIndex v < 32"
  by (simp add: getBinIndex_def HISTOGRAM_BINS_def)

lemma updateHistogram_ok:
  "histOk h n \<Longrightarrow> rv \<le> 255 \<Longrightarrow> gv \<le> 255 \<Longrightarrow> bv \<le> 255 \<Longrightarrow>
     histOk (updateHistogram h rv gv bv) (n + 1)"
  using getBinIndex_less [of rv] getBinIndex_less [of gv] getBinIndex_less [of bv]
  by (simp add: histOk_def updateHistogram_def incrementBin_sum incrementBin_length)

lemma pixelLoop_histogram_aux:
  "length pixels = 4 * k \<Longrightarrow> \<forall>v \<in> set pixels. v \<le> 255 \<Longrightarrow> histOk (accHistogram st) n \<Longrightarrow>
     histOk (accHistogram (pixelLoop pixels st)) (n + k)"
proof (induction k arbitrary: pixels st n)
  case 0
  then show ?case by simp
next
  case (Suc k)
  from Suc.prems(1) obtain rv gv bv av rest where
    px: "pixels = rv # gv # bv # av # rest" and len: "length rest = 4 * k"
    by (auto simp: length_Suc_conv eval_nat_numeral)
  have h: "histOk (accHistogram (processPixel rv gv bv st)) (n + 1)"
    using Suc.prems(2,3) updateHistogram_ok [of "accHistogram st" n rv gv bv] unfolding px
    by (simp add: processPixel_def Let_def)
  have b: "\<forall>v \<in> set rest. v \<le> 255" using Suc.prems(2) unfolding px by simp
  from Suc.IH [OF len b h] show ?case unfolding px by simp
qed

lemma pixelLoop_histogram:
  assumes "4 dvd length pixels" and "\<forall>v \<in> set pixels. v \<le> 255"
  shows "histOk (accHistogram (pixelLoop pixels initialStats)) (length pixels div 4)"
proof -
  from assms(1) obtain k where k: "length pixels = 4 * k" by (auto simp: dvd_def)
  have "histOk (accHistogram initialStats) 0"
    by (simp add: histOk_def initialStats_def initializeHistogram_def createBins_def
        HISTOGRAM_BINS_def comp_def)
  from pixelLoop_histogram_aux [OF k assms(2) this] k show ?thesis by simp
qed



text \<open>
  C1. On a canvas whose image data is an RGBA buffer (a multiple of four bytes, each at
  most 255) and with a random source in [0, 1), \<^verbatim>\<open>analyzeImageColors\<close> returns a result
  whose histogram has 32 bins in each channel, the counts of each channel adding up to
  \<open>totalPixels\<close>, which is the number of pixels, a quarter of the buffer length.
\<close>

theorem analyzeImageColors_histogram:
  assumes "imageData canvas = Some pixels" and "rgbaBuffer pixels" and "randomOk rnd"
  shows "\<exists>vm. analyzeImageColors dominantCount paletteCount rnd canvas = Inr vm \<and>
           length (histR (histogram vm)) = 32 \<and>
           length (histG (histogram vm)) = 32 \<and>
           length (histB (histogram vm)) = 32 \<and>
           real (sum_list (map binCount (histR (histogram vm)))) = totalPixels (histogram vm) \<and>
           real (sum_list (map binCount (histG (histogram vm)))) = totalPixels (histogram vm) \<and>
           real (sum_list (map binCount (histB (histogram vm)))) = totalPixels (histogram vm) \<and>
           totalPixels (histogram vm) = real (length pixels div 4)"
proof -
  from analyzeImageColors_total [OF assms(1,3), of dominantCount paletteCount]
  obtain vm where vm: "analyzeImageColors dominantCount paletteCount rnd canvas = Inr vm"
    and h: "histogram vm = (accHistogram (pixelLoop pixels initialStats))
                             \<lparr>totalPixels := real (length pixels) / 4\<rparr>"
    by blast
  have d: "4 dvd length pixels" and b: "\<forall>v \<in> set pixels. v \<le> 255"
    using assms(2) by (simp_all add: rgbaBuffer_def)
  have t: "real (length pixels) / 4 = real (length pixels div 4)"
    using d by (simp add: real_of_nat_div)
  from pixelLoop_histogram [OF d b] vm h t show ?thesis
    by (simp add: histOk_def)
qed


theorem analyzeImageColors_histogram_witness:
  "imageData \<lparr>width = 2, height = 1, imageData = Some [255, 0, 0, 255, 0, 255, 0, 255]\<rparr>
     = Some [255, 0, 0, 255, 0, 255, 0, 255] \<and>
   rgbaBuffer [255, 0, 0, 255, 0, 255, 0, 255] \<and>
   randomOk (constantRandom (1 / 2)) \<and>
   (\<exists>vm. analyzeImageColors 5 5 (constantRandom (1 / 2))
            \<lparr>width = 2, height = 1, imageData = Some [255, 0, 0, 255, 0, 255, 0, 255]\<rparr> = Inr vm \<and>
         real (sum_list (map binCount (histR (histogram vm)))) = totalPixels (histogram vm) \<and>
         real (sum_list (map binCount (histG (histogram vm)))) = totalPixels (histogram vm) \<and>
         real (sum_list (map binCount (histB (histogram vm)))) = totalPixels (histogram vm) \<and>
         totalPixels (histogram vm) = 2)"
proof -
  have c: "imageData \<lparr>width = 2, height = 1, imageData = Some [255, 0, 0, 255, 0, 255, 0, 255]\<rparr>
     = Some [255, 0, 0, 255, 0, 255, 0, 255]"
    by simp
  have b: "rgbaBuffer [255, 0, 0, 255, 0, 255, 0, 255]"
    by code_simp
  have r: "randomOk (constantRandom (1 / 2))"
    by (simp add: randomOk_def constantRandom_def)
  from analyzeImageColors_histogram [OF c b r, of 5 5] c b r show ?thesis
    by auto
qed

text \<open>
  C7, as the code has it. \<^verbatim>\<open>analyzeImageColors\<close> passes its own constant
  \<^verbatim>\<open>CANDIDATE_SIZE_FACTOR\<close>, which is 12, and so never uses the default 2 of the
  optional parameter: the palette fed to the selection is the one that
  \<^verbatim>\<open>extractColorPalette\<close> returns for the size \<open>paletteCount * 12\<close>, and it holds at most
  that many colours when \<open>paletteCount\<close> is at least 1.
\<close>

theorem analyzeImageColors_candidates:
  assumes "imageData canvas = Some pixels" and "randomOk rnd"
  shows "\<exists>vm candidates.
           analyzeImageColors dominantCount paletteCount rnd canvas = Inr vm \<and>
           extractColorPalette canvas (paletteCount * CANDIDATE_SIZE_FACTOR) = Inr candidates \<and>
           distinctPaletteColors vm = selectDistinct candidates paletteCount \<and>
           CANDIDATE_SIZE_FACTOR = 12 \<and>
           (1 \<le> paletteCount \<longrightarrow> length candidates \<le> paletteCount * 12)"
proof -
  from analyzeImageColors_total [OF assms, of dominantCount paletteCount]
  obtain vm candidates where vm: "analyzeImageColors dominantCount paletteCount rnd canvas = Inr vm"
    and c: "extractColorPalette canvas (paletteCount * CANDIDATE_SIZE_FACTOR) = Inr candidates"
    and d: "distinctPaletteColors vm = selectDistinct candidates paletteCount"
    by blast
  have "length candidates \<le> paletteCount * 12" if "1 \<le> paletteCount"
  proof -
    from that have "1 \<le> paletteCount * 12" by simp
    from medianCutQuantize_length [OF this] c assms(1) show ?thesis
      by (auto simp: extractColorPalette_def Let_def CANDIDATE_SIZE_FACTOR_def split: if_splits)
  qed
  with vm c d show ?thesis
    by (auto simp: CANDIDATE_SIZE_FACTOR_def)
qed

theorem analyzeImageColors_candidates_witness:
  "imageData \<lparr>width = 2, height = 1, imageData = Some [255, 0, 0, 255, 0, 255, 0, 255]\<rparr>
     = Some [255, 0, 0, 255, 0, 255, 0, 255] \<and>
   randomOk (constantRandom (1 / 2)) \<and>
   (\<exists>vm candidates.
      analyzeImageColors 5 1 (constantRandom (1 / 2))
          \<lparr>width = 2, height = 1, imageData = Some [255, 0, 0, 255, 0, 255, 0, 255]\<rparr> = Inr vm \<and>
      extractColorPalette
          \<lparr>width = 2, height = 1, imageData = Some [255, 0, 0, 255, 0, 255, 0, 255]\<rparr> 12
        = Inr candidates \<and>
      distinctPaletteColors vm = selectDistinct candidates 1 \<and> length candidates \<le> 12)"
proof -
  have c: "imageData \<lparr>width = 2, height = 1, imageData = Some [255, 0, 0, 255, 0, 255, 0, 255]\<rparr>
     = Some [255, 0, 0, 255, 0, 255, 0, 255]"
    by simp
  have r: "randomOk (constantRandom (1 / 2))"
    by (simp add: randomOk_def constantRandom_def)
  from analyzeImageColors_candidates [OF c r, of 5 1] c r show ?thesis
    by (auto simp: CANDIDATE_SIZE_FACTOR_def)
qed

text \<open>
  The claim as the specification states it (a candidate palette of the palette size times
  a factor whose default is 2) fails on three grey pixels with the palette size 1: the
  selection is fed the three colours of the palette requested with the size 12, not two.
\<close>

theorem candidate_factor_not_default:
  "extractColorPalette
       \<lparr>width = 3, height = 1,
        imageData = Some [10, 10, 10, 255, 200, 200, 200, 255, 90, 90, 90, 255]\<rparr>
       (1 * CANDIDATE_SIZE_FACTOR)
     = Inr [\<lparr>chR = Fin 10, chG = Fin 10, chB = Fin 10\<rparr>, \<lparr>chR = Fin 90, chG = Fin 90, chB = Fin 90\<rparr>,
            \<lparr>chR = Fin 200, chG = Fin 200, chB = Fin 200\<rparr>] \<and>
   extractDistinctColorPalette
       \<lparr>width = 3, height = 1,
        imageData = Some [10, 10, 10, 255, 200, 200, 200, 255, 90, 90, 90, 255]\<rparr>
       1 CANDIDATE_SIZE_FACTOR
     = Inr (selectDistinct
              [\<lparr>chR = Fin 10, chG = Fin 10, chB = Fin 10\<rparr>, \<lparr>chR = Fin 90, chG = Fin 90, chB = Fin 90\<rparr>,
               \<lparr>chR = Fin 200, chG = Fin 200, chB = Fin 200\<rparr>] 1) \<and>
   length [\<lparr>chR = Fin 10, chG = Fin 10, chB = Fin (10::real)\<rparr>, \<lparr>chR = Fin 90, chG = Fin 90, chB = Fin 90\<rparr>,
           \<lparr>chR = Fin 200, chG = Fin 200, chB = Fin 200\<rparr>] \<noteq> 1 * defaultCandidateSizeFactor \<and>
   CANDIDATE_SIZE_FACTOR \<noteq> defaultCandidateSizeFactor"
proof -
  have ev: "extractColorPalette
       \<lparr>width = 3, height = 1,
        imageData = Some [10, 10, 10, 255, 200, 200, 200, 255, 90, 90, 90, 255]\<rparr>
       (1 * CANDIDATE_SIZE_FACTOR)
     = Inr [\<lparr>chR = Fin 10, chG = Fin 10, chB = Fin 10\<rparr>, \<lparr>chR = Fin 90, chG = Fin 90, chB = Fin 90\<rparr>,
            \<lparr>chR = Fin 200, chG = Fin 200, chB = Fin 200\<rparr>]"
    by code_simp
  then have "extractDistinctColorPalette
       \<lparr>width = 3, height = 1,
        imageData = Some [10, 10, 10, 255, 200, 200, 200, 255, 90, 90, 90, 255]\<rparr>
       1 CANDIDATE_SIZE_FACTOR
     = Inr (selectDistinct
              [\<lparr>chR = Fin 10, chG = Fin 10, chB = Fin 10\<rparr>, \<lparr>chR = Fin 90, chG = Fin 90, chB = Fin 90\<rparr>,
               \<lparr>chR = Fin 200, chG = Fin 200, chB = Fin 200\<rparr>] 1)"
    by (simp only: extractDistinctColorPalette_def Let_def sum.case)
  with ev show ?thesis
    by (simp add: defaultCandidateSizeFactor_def CANDIDATE_SIZE_FACTOR_def)
qed

text \<open>
  C8, evaluated. An empty map, an empty point list and an empty pixel buffer give empty
  lists and a zero variance; for \<^verbatim>\<open>analyzeImageColors\<close> the empty buffer gives empty
  palettes, an untouched histogram and a zero variance, but the divisions by the pixel
  count 0 are not guarded: the average colour and the average brightness are NaN, and the
  brightness range keeps its initial values, minimum 1 and maximum 0.
\<close>

theorem empty_input_results:
  "extractDominantColors [] k rnd = Inr [] \<and>
   medianCutQuantize [] paletteSize = [] \<and>
   calculateColorVariance \<lparr>width = 0, height = 0, imageData = Some []\<rparr>
     = Inr \<lparr>chR = 0, chG = 0, chB = 0\<rparr> \<and>
   analyzeImageColors dominantCount paletteCount rnd \<lparr>width = 0, height = 0, imageData = Some []\<rparr>
     = Inr \<lparr> averageColor = \<lparr>chR = NaN, chG = NaN, chB = NaN\<rparr>,
             dominantColors = [],
             representativePaletteColors = [],
             distinctPaletteColors = [],
             histogram = initializeHistogram,
             brightness =
               \<lparr>averageBrightness = NaN, brightnessRange = \<lparr>rangeMin = 1, rangeMax = 0\<rparr>\<rparr>,
             colorVariance = \<lparr>chR = 0, chG = 0, chB = 0\<rparr> \<rparr>"
proof -
  have v: "calculateColorVariance \<lparr>width = 0, height = 0, imageData = Some []\<rparr>
     = Inr \<lparr>chR = 0, chG = 0, chB = 0\<rparr>"
    by (simp add: calculateColorVariance_def blockVariances_def blockCount_def BLOCK_SIZE_def
        percentileOr0_def)
  have d: "extractDominantColors [] k' rnd = Inr []" for k'
    by (simp add: extractDominantColors_def)
  have a: "analyzeImageColors dominantCount paletteCount rnd
       \<lparr>width = 0, height = 0, imageData = Some []\<rparr>
     = Inr \<lparr> averageColor = \<lparr>chR = NaN, chG = NaN, chB = NaN\<rparr>,
             dominantColors = [],
             representativePaletteColors = [],
             distinctPaletteColors = [],
             histogram = initializeHistogram,
             brightness =
               \<lparr>averageBrightness = NaN, brightnessRange = \<lparr>rangeMin = 1, rangeMax = 0\<rparr>\<rparr>,
             colorVariance = \<lparr>chR = 0, chG = 0, chB = 0\<rparr> \<rparr>"
    by (simp add: analyzeImageColors_def initialStats_def js_div_def d v
        extractColorPalette_def extractDistinctColorPalette_def selectDistinct_def
        initializeHistogram_def)
  from v d a show ?thesis
    by (simp add: medianCutQuantize_def)
qed


section \<open>Properties of the comparators\<close>

text \<open>
  C10. When \<^verbatim>\<open>dominantColors\<close> is absent in at least one of the two operands, each of the
  four comparators returns exactly 0. And \<^verbatim>\<open>compareByLuminance\<close> is, on all operands,
  the function without the fallback on the average colour: that branch is never taken.
\<close>

theorem comparators_absent_dominantColors:
  "(dominantColors ma = None \<or> dominantColors mb = None \<longrightarrow>
      compareByLuminance ma mb = 0 \<and> compareByHue ma mb = 0 \<and>
      compareBySaturation ma mb = Fin 0 \<and> compareByColorTemperature ma mb = Fin 0) \<and>
   compareByLuminance ma mb =
     (case (dominantColors ma, dominantColors mb) of
        (Some ca, Some cb) \<Rightarrow> getWeightedBrightness (Some cb) - getWeightedBrightness (Some ca)
      | _ \<Rightarrow> 0)"
  by (auto simp: compareByLuminance_def compareByHue_def compareBySaturation_def
      compareByColorTemperature_def split: option.splits)

theorem comparators_absent_dominantColors_witness:
  "(dominantColors
      \<lparr> averageColor = Some \<lparr>chR = 255, chG = 255, chB = 255\<rparr>, dominantColors = None,
        representativePaletteColors = None, distinctPaletteColors = None, histogram = None,
        brightness = \<lparr>averageBrightness = Fin 1, brightnessRange = \<lparr>rangeMin = 1, rangeMax = 1\<rparr>\<rparr>,
        colorVariance = \<lparr>chR = 0, chG = 0, chB = 0\<rparr> \<rparr> = (None :: Color list option) \<or>
    dominantColors
      \<lparr> averageColor = Some \<lparr>chR = 0, chG = 0, chB = 0\<rparr>,
        dominantColors = Some [\<lparr>chR = 0, chG = 0, chB = 0\<rparr>],
        representativePaletteColors = None, distinctPaletteColors = None, histogram = None,
        brightness = \<lparr>averageBrightness = Fin 0, brightnessRange = \<lparr>rangeMin = 0, rangeMax = 0\<rparr>\<rparr>,
        colorVariance = \<lparr>chR = 0, chG = 0, chB = 0\<rparr> \<rparr> = (None :: Color list option)) \<and>
   compareByLuminance
      \<lparr> averageColor = Some \<lparr>chR = 255, chG = 255, chB = 255\<rparr>, dominantColors = None,
        representativePaletteColors = None, distinctPaletteColors = None, histogram = None,
        brightness = \<lparr>averageBrightness = Fin 1, brightnessRange = \<lparr>rangeMin = 1, rangeMax = 1\<rparr>\<rparr>,
        colorVariance = \<lparr>chR = 0, chG = 0, chB = 0\<rparr> \<rparr>
      \<lparr> averageColor = Some \<lparr>chR = 0, chG = 0, chB = 0\<rparr>,
        dominantColors = Some [\<lparr>chR = 0, chG = 0, chB = 0\<rparr>],
        representativePaletteColors = None, distinctPaletteColors = None, histogram = None,
        brightness = \<lparr>averageBrightness = Fin 0, brightnessRange = \<lparr>rangeMin = 0, rangeMax = 0\<rparr>\<rparr>,
        colorVariance = \<lparr>chR = 0, chG = 0, chB = 0\<rparr> \<rparr> = 0 \<and>
   compareByColorTemperature
      \<lparr> averageColor = Some \<lparr>chR = 255, chG = 255, chB = 255\<rparr>, dominantColors = None,
        representativePaletteColors = None, distinctPaletteColors = None, histogram = None,
        brightness = \<lparr>averageBrightness = Fin 1, brightnessRange = \<lparr>rangeMin = 1, rangeMax = 1\<rparr>\<rparr>,
        colorVariance = \<lparr>chR = 0, chG = 0, chB = 0\<rparr> \<rparr>
      \<lparr> averageColor = Some \<lparr>chR = 0, chG = 0, chB = 0\<rparr>,
        dominantColors = Some [\<lparr>chR = 0, chG = 0, chB = 0\<rparr>],
        representativePaletteColors = None, distinctPaletteColors = None, histogram = None,
        brightness = \<lparr>averageBrightness = Fin 0, brightnessRange = \<lparr>rangeMin = 0, rangeMax = 0\<rparr>\<rparr>,
        colorVariance = \<lparr>chR = 0, chG = 0, chB = 0\<rparr> \<rparr> = Fin 0"
  using comparators_absent_dominantColors
    [of "\<lparr> averageColor = Some \<lparr>chR = 255, chG = 255, chB = 255\<rparr>, dominantColors = None,
        representativePaletteColors = None, distinctPaletteColors = None, histogram = None,
        brightness = \<lparr>averageBrightness = Fin 1, brightnessRange = \<lparr>rangeMin = 1, rangeMax = 1\<rparr>\<rparr>,
        colorVariance = \<lparr>chR = 0, chG = 0, chB = 0\<rparr> \<rparr>"
        "\<lparr> averageColor = Some \<lparr>chR = 0, chG = 0, chB = 0\<rparr>,
        dominantColors = Some [\<lparr>chR = 0, chG = 0, chB = 0\<rparr>],
        representativePaletteColors = None, distinctPaletteColors = None, histogram = None,
        brightness = \<lparr>averageBrightness = Fin 0, brightnessRange = \<lparr>rangeMin = 0, rangeMax = 0\<rparr>\<rparr>,
        colorVariance = \<lparr>chR = 0, chG = 0, chB = 0\<rparr> \<rparr>"]
  by simp


section \<open>Properties of the block variance\<close>


lemma pixel_index_bound:
  assumes "x < (w::nat)" and "y < (h::nat)"
  shows "(y * w + x) * 4 + 3 < 4 * w * h"
proof -
  have "y * w + x < (y + 1) * w" using assms(1) by simp
  also have "\<dots> \<le> h * w" using assms(2) by (intro mult_le_mono1) simp
  finally have "y * w + x < w * h" by (simp add: mult.commute)
  then show ?thesis by simp
qed

lemma countedPixel_spec:
  assumes "length pixels = 4 * w * h" and "fst xy < w" and "snd xy < h"
  shows "countedPixel pixels w xy =
           (case spec_pixel pixels w xy of (rv, gv, bv) \<Rightarrow>
              if rv \<noteq> 0 \<and> gv \<noteq> 0 \<and> bv \<noteq> 0 then Some (rv, gv, bv) else None)"
proof -
  from pixel_index_bound [OF assms(2,3)] assms(1)
  have "(snd xy * w + fst xy) * 4 + 3 < length pixels" by simp
  then show ?thesis
    by (simp add: countedPixel_def spec_pixel_def pixelAt_def Let_def mult.commute)
qed

lemma map_filter_filter:
  assumes "\<forall>x \<in> set xs. f x = (if P (g x) then Some (g x) else None)"
  shows "List.map_filter f xs = filter P (map g xs)"
  using assms by (induction xs) (simp_all add: List.map_filter_simps)

lemma blockCoordinates_set:
  "set (blockCoordinates sx ex sy ey) = {(x, y). sx \<le> x \<and> x < ex \<and> sy \<le> y \<and> y < ey}"
  by (auto simp: blockCoordinates_def)

lemma counted_block:
  assumes "length pixels = 4 * w * h"
  shows "List.map_filter (countedPixel pixels w)
           (blockCoordinates (fst block * 16) (min (fst block * 16 + 16) w)
              (snd block * 16) (min (snd block * 16 + 16) h))
         = spec_blockPixels pixels w h block"
proof -
  have "List.map_filter (countedPixel pixels w)
           (blockCoordinates (fst block * 16) (min (fst block * 16 + 16) w)
              (snd block * 16) (min (snd block * 16 + 16) h))
        = filter (\<lambda>(rv, gv, bv). rv \<noteq> 0 \<and> gv \<noteq> 0 \<and> bv \<noteq> 0)
            (map (spec_pixel pixels w)
               (blockCoordinates (fst block * 16) (min (fst block * 16 + 16) w)
                  (snd block * 16) (min (snd block * 16 + 16) h)))"
  proof (rule map_filter_filter, rule ballI)
    fix xy
    assume "xy \<in> set (blockCoordinates (fst block * 16) (min (fst block * 16 + 16) w)
                  (snd block * 16) (min (snd block * 16 + 16) h))"
    then have "fst xy < w" "snd xy < h" by (auto simp: blockCoordinates_set)
    from countedPixel_spec [OF assms this]
    show "countedPixel pixels w xy =
            (if (case spec_pixel pixels w xy of (rv, gv, bv) \<Rightarrow> rv \<noteq> 0 \<and> gv \<noteq> 0 \<and> bv \<noteq> 0)
             then Some (spec_pixel pixels w xy) else None)"
      by (simp split: prod.splits)
  qed
  then show ?thesis
    by (simp add: spec_blockPixels_def blockCoordinates_def mult.commute)
qed

lemma meanPass_sums:
  "meanPass pixels w coords =
     (sum_list (map fst (List.map_filter (countedPixel pixels w) coords)),
      sum_list (map (\<lambda>p. fst (snd p)) (List.map_filter (countedPixel pixels w) coords)),
      sum_list (map (\<lambda>p. snd (snd p)) (List.map_filter (countedPixel pixels w) coords)),
      length (List.map_filter (countedPixel pixels w) coords))"
proof -
  let ?step = "\<lambda>xy (totalR, totalG, totalB, pixelCount).
             case countedPixel pixels w xy of
               None \<Rightarrow> (totalR, totalG, totalB, pixelCount)
             | Some (rv, gv, bv) \<Rightarrow> (totalR + rv, totalG + gv, totalB + bv, pixelCount + (1::nat))"
  have "fold ?step coords (a, b, c, n) =
     (a + sum_list (map fst (List.map_filter (countedPixel pixels w) coords)),
      b + sum_list (map (\<lambda>p. fst (snd p)) (List.map_filter (countedPixel pixels w) coords)),
      c + sum_list (map (\<lambda>p. snd (snd p)) (List.map_filter (countedPixel pixels w) coords)),
      n + length (List.map_filter (countedPixel pixels w) coords))" for a b c n
  proof (induction coords arbitrary: a b c n)
    case Nil
    then show ?case by (simp add: List.map_filter_simps)
  next
    case (Cons xy coords)
    show ?case
      by (cases "countedPixel pixels w xy")
        (auto simp: Cons.IH List.map_filter_simps algebra_simps)
  qed
  from this [of 0 0 0 0] show ?thesis by (simp add: meanPass_def)
qed

lemma variancePass_sums:
  "variancePass pixels w coords mr mg mb =
     (sum_list (map (\<lambda>p. (fst p - mr)\<^sup>2) (List.map_filter (countedPixel pixels w) coords)),
      sum_list (map (\<lambda>p. (fst (snd p) - mg)\<^sup>2) (List.map_filter (countedPixel pixels w) coords)),
      sum_list (map (\<lambda>p. (snd (snd p) - mb)\<^sup>2) (List.map_filter (countedPixel pixels w) coords)))"
proof -
  let ?step = "\<lambda>xy (varR, varG, varB).
             case countedPixel pixels w xy of
               None \<Rightarrow> (varR, varG, varB)
             | Some (rv, gv, bv) \<Rightarrow>
                 (varR + (rv - mr) * (rv - mr), varG + (gv - mg) * (gv - mg),
                  varB + (bv - mb) * (bv - mb))"
  have "fold ?step coords (a, b, c) =
     (a + sum_list (map (\<lambda>p. (fst p - mr)\<^sup>2) (List.map_filter (countedPixel pixels w) coords)),
      b + sum_list (map (\<lambda>p. (fst (snd p) - mg)\<^sup>2) (List.map_filter (countedPixel pixels w) coords)),
      c + sum_list (map (\<lambda>p. (snd (snd p) - mb)\<^sup>2) (List.map_filter (countedPixel pixels w) coords)))"
    for a b c
  proof (induction coords arbitrary: a b c)
    case Nil
    then show ?case by (simp add: List.map_filter_simps)
  next
    case (Cons xy coords)
    show ?case
      by (cases "countedPixel pixels w xy")
        (auto simp: Cons.IH List.map_filter_simps power2_eq_square)
  qed
  from this [of 0 0 0] show ?thesis by (simp add: variancePass_def)
qed


lemma blockVariance_spec:
  assumes "length pixels = 4 * w * h"
  shows "blockVariance pixels w h block =
           (if spec_blockPixels pixels w h block = [] then None
            else Some \<lparr>chR = spec_variance (map fst (spec_blockPixels pixels w h block)),
                        chG = spec_variance (map (\<lambda>p. fst (snd p)) (spec_blockPixels pixels w h block)),
                        chB = spec_variance (map (\<lambda>p. snd (snd p)) (spec_blockPixels pixels w h block))\<rparr>)"
  by (simp add: blockVariance_def BLOCK_SIZE_def Let_def meanPass_sums variancePass_sums
      counted_block [OF assms] spec_variance_def comp_def)

lemma map_filter_nonempty:
  assumes "\<And>x. f x = (if g x = [] then None else Some (F (g x)))"
  shows "List.map_filter f xs = map F (filter (\<lambda>ps. ps \<noteq> []) (map g xs))"
  by (induction xs) (simp_all add: List.map_filter_simps assms)

lemma blockVariances_spec:
  assumes "length pixels = 4 * w * h"
  shows "blockVariances pixels w h = spec_blockVariances pixels w h"
  unfolding blockVariances_def spec_blockVariances_def
  by (subst map_filter_nonempty [where g = "spec_blockPixels pixels w h"
        and F = "\<lambda>ps. \<lparr>chR = spec_variance (map fst ps),
                  chG = spec_variance (map (\<lambda>p. fst (snd p)) ps),
                  chB = spec_variance (map (\<lambda>p. snd (snd p)) ps)\<rparr>"])
    (simp_all add: blockVariance_spec [OF assms] blockCount_def BLOCK_SIZE_def add.commute)

lemma percentile_index_less: "0 < n \<Longrightarrow> nat \<lfloor>real n * 0.75\<rfloor> < n"
proof -
  assume n: "0 < n"
  then have "real n * 0.75 < real n" by simp
  then have "\<lfloor>real n * 0.75\<rfloor> < int n" by (simp add: floor_less_iff)
  with n show ?thesis by (simp add: nat_less_iff)
qed


text \<open>
  C9. On a canvas whose buffer holds four bytes for each of its \<open>width \<times> height\<close>
  pixels, and with at least one block that has a counted pixel, \<^verbatim>\<open>calculateColorVariance\<close>
  returns, channel by channel, the block variances of the specification at the index
  \<open>\<lfloor>n \<times> 0.75\<rfloor>\<close> of their ascending order.
\<close>

theorem calculateColorVariance_percentile:
  assumes "imageData canvas = Some pixels"
    and "length pixels = 4 * width canvas * height canvas"
    and "spec_blockVariances pixels (width canvas) (height canvas) \<noteq> []"
  shows "calculateColorVariance canvas =
           Inr \<lparr>chR = spec_percentile75
                         (map chR (spec_blockVariances pixels (width canvas) (height canvas))),
                 chG = spec_percentile75
                         (map chG (spec_blockVariances pixels (width canvas) (height canvas))),
                 chB = spec_percentile75
                         (map chB (spec_blockVariances pixels (width canvas) (height canvas)))\<rparr>"
proof -
  let ?bvs = "spec_blockVariances pixels (width canvas) (height canvas)"
  have n: "0 < length ?bvs" using assms(3) by simp
  have p: "percentileOr0 (sort (map f ?bvs)) (nat \<lfloor>real (length ?bvs) * 0.75\<rfloor>)
             = spec_percentile75 (map f ?bvs)" for f :: "Color \<Rightarrow> real"
    using percentile_index_less [OF n] by (simp add: percentileOr0_def spec_percentile75_def)
  show ?thesis
    unfolding calculateColorVariance_def Let_def
    by (simp only: assms(1) option.case blockVariances_spec [OF assms(2)] p length_map)
qed


text \<open>
  A 2 by 2 image, one block: the pixel (0, 9, 9) is left out of both passes, the other
  three give the variances 1400/3, 800/3 and 600.
\<close>

theorem calculateColorVariance_percentile_witness:
  "imageData \<lparr>width = 2, height = 2,
      imageData = Some [10, 20, 30, 255, 20, 40, 60, 255, 0, 9, 9, 255, 60, 60, 90, 255]\<rparr>
     = Some [10, 20, 30, 255, 20, 40, 60, 255, 0, 9, 9, 255, 60, 60, 90, 255] \<and>
   length [10, 20, 30, 255, 20, 40, 60, 255, 0, 9, 9, 255, 60, 60, 90, 255 :: nat]
     = 4 * width \<lparr>width = 2, height = 2,
      imageData = Some [10, 20, 30, 255, 20, 40, 60, 255, 0, 9, 9, 255, 60, 60, 90, 255]\<rparr> *
       height \<lparr>width = 2, height = 2,
      imageData = Some [10, 20, 30, 255, 20, 40, 60, 255, 0, 9, 9, 255, 60, 60, 90, 255]\<rparr> \<and>
   spec_blockVariances [10, 20, 30, 255, 20, 40, 60, 255, 0, 9, 9, 255, 60, 60, 90, 255] 2 2
     = [\<lparr>chR = 1400 / 3, chG = 800 / 3, chB = 600\<rparr>] \<and>
   calculateColorVariance \<lparr>width = 2, height = 2,
      imageData = Some [10, 20, 30, 255, 20, 40, 60, 255, 0, 9, 9, 255, 60, 60, 90, 255]\<rparr>
     = Inr \<lparr>chR = 1400 / 3, chG = 800 / 3, chB = 600\<rparr>"
proof -
  let ?px = "[10, 20, 30, 255, 20, 40, 60, 255, 0, 9, 9, 255, 60, 60, 90, 255 :: nat]"
  let ?cv = "\<lparr>width = 2, height = 2, imageData = Some ?px\<rparr>"
  have i: "imageData ?cv = Some ?px" by simp
  have l: "length ?px = 4 * width ?cv * height ?cv" by simp
  have b: "spec_blockVariances ?px 2 2 = [\<lparr>chR = 1400 / 3, chG = 800 / 3, chB = 600\<rparr>]"
    by code_simp
  then have n: "spec_blockVariances ?px (width ?cv) (height ?cv) \<noteq> []" by simp
  have "calculateColorVariance ?cv = Inr \<lparr>chR = 1400 / 3, chG = 800 / 3, chB = 600\<rparr>"
    using calculateColorVariance_percentile [OF i l n]
    by (simp add: b spec_percentile75_def)
  with i l b show ?thesis by simp
qed

end
